theory Spec2Isabelle
  imports Main "HOL-Library.Char_ord" "HOL-Library.List_Lexorder" "HOL-Library.Sublist"
    "HOL-Library.Multiset"
begin

section \<open>Strings and run-time values\<close>

text \<open>
  A JavaScript string is modelled as a \<^typ>\<open>string\<close>, one \<^typ>\<open>char\<close> per code unit
  (code units below 256). \<open>toLowerCase\<close> and \<open>toUpperCase\<close> are the ASCII case mappings:
  code units outside \<open>A-Z\<close> / \<open>a-z\<close> are left as they are.
\<close>

definition lower_char :: "char \<Rightarrow> char" where
  "lower_char c =
     (let n = (of_char c :: nat) in if 65 \<le> n \<and> n \<le> 90 then char_of (n + 32) else c)"

definition upper_char :: "char \<Rightarrow> char" where
  "upper_char c =
     (let n = (of_char c :: nat) in if 97 \<le> n \<and> n \<le> 122 then char_of (n - 32) else c)"

definition toLowerCase :: "string \<Rightarrow> string" where
  "toLowerCase s = map lower_char s"

definition toUpperCase :: "string \<Rightarrow> string" where
  "toUpperCase s = map upper_char s"

text \<open>
  The registry functions of \<open>utils.ts\<close> are declared to return \<open>string\<close>, but they index
  an object literal, and a property read on an object literal also finds what the literal
  inherits from \<open>Object.prototype\<close>. The values such a read can produce:
\<close>

datatype js_value =
    JString string
  | JUndefined
  | JObjectConstructor  \<comment> \<open>the built-in function \<open>Object\<close> (\<open>Object.prototype.constructor\<close>)\<close>
  | JObjectPrototype    \<comment> \<open>the object \<open>Object.prototype\<close> (read through \<open>__proto__\<close>)\<close>

fun truthy :: "js_value \<Rightarrow> bool" where
  "truthy (JString s) = (s \<noteq> [])"
| "truthy JUndefined = False"
| "truthy JObjectConstructor = True"
| "truthy JObjectPrototype = True"

text \<open>\<open>a || b\<close>: the left operand when it is truthy, the right one otherwise.\<close>

definition js_or :: "js_value \<Rightarrow> js_value \<Rightarrow> js_value" where
  "js_or a b = (if truthy a then a else b)"

text \<open>
  \<open>literal[key]\<close> for an object literal with the own properties \<open>kvs\<close> and a key that is
  the result of \<open>toLowerCase\<close>. An own property wins. Of the properties inherited from
  \<open>Object.prototype\<close>, only \<open>constructor\<close> and \<open>__proto__\<close> have a name without an
  upper-case letter, so they are the only inherited ones a lower-cased key can reach.
\<close>

definition record_get :: "(string \<times> string) list \<Rightarrow> string \<Rightarrow> js_value" where
  "record_get kvs key =
     (case map_of kvs key of
        Some v \<Rightarrow> JString v
      | None \<Rightarrow>
          if key = ''constructor'' then JObjectConstructor
          else if key = ''__proto__'' then JObjectPrototype
          else JUndefined)"

section \<open>Provider registry (\<open>utils.ts\<close>)\<close>

definition providerMap :: "(string \<times> string) list" where
  "providerMap =
    [(''openai'', ''@ai-sdk/openai''),
     (''groq'', ''@ai-sdk/groq''),
     (''anthropic'', ''@ai-sdk/anthropic''),
     (''google'', ''@ai-sdk/google''),
     (''mistral'', ''@ai-sdk/mistral''),
     (''cohere'', ''@ai-sdk/cohere''),
     (''vercel'', ''@ai-sdk/vercel''),
     (''azure-openai'', ''@ai-sdk/azure-openai''),
     (''azure-anthropic'', ''@ai-sdk/azure-anthropic''),
     (''azure'', ''@ai-sdk/azure-openai''),
     (''fireworks'', ''@ai-sdk/fireworks''),
     (''xai'', ''@ai-sdk/xai''),
     (''ollama'', ''@ai-sdk/ollama''),
     (''ai21'', ''@ai-sdk/ai21''),
     (''nvidia'', ''@ai-sdk/nvidia''),
     (''bedrock'', ''@ai-sdk/amazon-bedrock''),
     (''amazon-bedrock'', ''@ai-sdk/amazon-bedrock''),
     (''cloudflare'', ''@ai-sdk/cloudflare''),
     (''elevenlabs'', ''@ai-sdk/elevenlabs''),
     (''lepton'', ''@ai-sdk/lepton''),
     (''perplexity'', ''@ai-sdk/perplexity''),
     (''replicate'', ''@ai-sdk/replicate''),
     (''together'', ''@ai-sdk/together''),
     (''upstash'', ''@ai-sdk/upstash'')]"

definition envMap :: "(string \<times> string) list" where
  "envMap =
    [(''openai'', ''OPENAI_API_KEY''),
     (''groq'', ''GROQ_API_KEY''),
     (''anthropic'', ''ANTHROPIC_API_KEY''),
     (''google'', ''GOOGLE_API_KEY''),
     (''mistral'', ''MISTRAL_API_KEY''),
     (''cohere'', ''COHERE_API_KEY''),
     (''vercel'', ''VERCEL_API_KEY''),
     (''azure-openai'', ''AZURE_OPENAI_API_KEY''),
     (''azure-anthropic'', ''AZURE_ANTHROPIC_API_KEY''),
     (''azure'', ''AZURE_OPENAI_API_KEY''),
     (''fireworks'', ''FIREWORKS_API_KEY''),
     (''xai'', ''XAI_API_KEY''),
     (''ollama'', ''OLLAMA_API_KEY''),
     (''ai21'', ''AI21_API_KEY''),
     (''nvidia'', ''NVIDIA_API_KEY''),
     (''bedrock'', ''AWS_ACCESS_KEY_ID''),
     (''amazon-bedrock'', ''AWS_ACCESS_KEY_ID''),
     (''cloudflare'', ''CLOUDFLARE_API_KEY''),
     (''elevenlabs'', ''ELEVENLABS_API_KEY''),
     (''lepton'', ''LEPTON_API_KEY''),
     (''perplexity'', ''PERPLEXITY_API_KEY''),
     (''replicate'', ''REPLICATE_API_KEY''),
     (''together'', ''TOGETHER_API_KEY''),
     (''upstash'', ''UPSTASH_API_KEY'')]"

definition modelMap :: "(string \<times> string) list" where
  "modelMap =
    [(''openai'', ''gpt-4o-mini''),
     (''groq'', ''llama-3.1-70b-versatile''),
     (''anthropic'', ''claude-3-5-sonnet-20241022''),
     (''google'', ''gemini-1.5-flash''),
     (''mistral'', ''mistral-small-latest''),
     (''cohere'', ''command-r''),
     (''vercel'', ''claude-3-5-sonnet-20241022''),
     (''azure-openai'', ''gpt-4o-mini''),
     (''azure-anthropic'', ''claude-3-5-sonnet-20241022''),
     (''azure'', ''gpt-4o-mini''),
     (''fireworks'', ''llama-v3-70b-instruct''),
     (''xai'', ''grok-beta''),
     (''ollama'', ''llama3.2''),
     (''ai21'', ''j2-ultra''),
     (''nvidia'', ''meta/llama-3-70b-instruct''),
     (''bedrock'', ''anthropic.claude-3-5-sonnet-20241022-v2:0''),
     (''amazon-bedrock'', ''anthropic.claude-3-5-sonnet-20241022-v2:0''),
     (''cloudflare'', ''llama-3-70b-instruct''),
     (''elevenlabs'', ''eleven_turbo_v2_5''),
     (''lepton'', ''llama-3-70b-instruct''),
     (''perplexity'', ''llama-3.1-sonar-large-128k-online''),
     (''replicate'', ''meta/llama-3-70b-instruct''),
     (''together'', ''meta/llama-3-70b-instruct''),
     (''upstash'', ''meta/llama-3-70b-instruct'')]"

definition getProviderPackageName :: "string \<Rightarrow> js_value" where
  "getProviderPackageName provider =
     js_or (record_get providerMap (toLowerCase provider))
           (JString (''@ai-sdk/'' @ toLowerCase provider))"

definition getProviderEnvVar :: "string \<Rightarrow> js_value" where
  "getProviderEnvVar provider =
     js_or (record_get envMap (toLowerCase provider))
           (JString (toUpperCase provider @ ''_API_KEY''))"

definition getDefaultModel :: "string \<Rightarrow> js_value" where
  "getDefaultModel provider =
     js_or (record_get modelMap (toLowerCase provider)) (JString ''gpt-4o-mini'')"

text \<open>The fixed supported set: the keys the three tables share.\<close>

definition supported_providers :: "string list" where
  "supported_providers = map fst providerMap"

section \<open>Model fetcher (\<open>model-fetcher.ts\<close>)\<close>

subsection \<open>Errors, JSON values and the transport\<close>

datatype js_error = Error string | TypeError string | SyntaxError string

fun message :: "js_error \<Rightarrow> string" where
  "message (Error m) = m"
| "message (TypeError m) = m"
| "message (SyntaxError m) = m"

text \<open>
  A parsed response body. A number is kept as the decimal text that \<open>ToString\<close> gives
  for it, which is all the code can observe of it (through \<open>sort\<close>). A value read out of
  a body is a \<open>json option\<close>, \<open>None\<close> standing for \<open>undefined\<close>.
\<close>

datatype json =
    JsonNull
  | JsonBool bool
  | JsonNumber string
  | JsonString string
  | JsonArray "json list"
  | JsonObject "(string \<times> json) list"

text \<open>
  What \<open>await fetch(url, {headers})\<close> settles to: a rejection (network or transport
  error), or a response with its status and what \<open>await response.json()\<close> gives (a
  rejection on a body that is not JSON). \<open>response.ok\<close> is a status in 200..299.
\<close>

record response =
  status :: nat
  statusText :: string
  body :: "js_error + json"

datatype http_outcome = Rejected js_error | Responded response

type_synonym transport = "string \<Rightarrow> (string \<times> string) list \<Rightarrow> http_outcome"

definition ok :: "response \<Rightarrow> bool" where
  "ok r = (200 \<le> status r \<and> status r \<le> 299)"

fun string_of_nat :: "nat \<Rightarrow> string" where
  "string_of_nat n =
     (if n < 10 then [char_of (48 + n)]
      else string_of_nat (n div 10) @ [char_of (48 + n mod 10)])"

subsection \<open>The JavaScript operations the adapters use\<close>

text \<open>
  \<open>v.key\<close> for the keys \<open>data\<close>, \<open>models\<close>, \<open>id\<close> and \<open>name\<close>: a \<open>TypeError\<close> on
  \<open>null\<close> and \<open>undefined\<close>, the own property of an object (\<open>JSON.parse\<close> keeps the last
  of a repeated key), and \<open>undefined\<close> on every other value. The messages of errors the
  runtime raises are the engine's; the model leaves them empty.
\<close>

fun get_prop :: "json option \<Rightarrow> string \<Rightarrow> js_error + json option" where
  "get_prop None key = Inl (TypeError [])"
| "get_prop (Some JsonNull) key = Inl (TypeError [])"
| "get_prop (Some (JsonObject kvs)) key = Inr (map_of (rev kvs) key)"
| "get_prop (Some v) key = Inr None"

text \<open>
  The receiver of \<open>x?.filter(...)\<close> or \<open>x?.map(...)\<close>: on \<open>null\<close> and \<open>undefined\<close> the
  whole chain is \<open>undefined\<close>; an array goes on; any other value has no callable
  \<open>filter\<close> or \<open>map\<close>, so the call raises a \<open>TypeError\<close>.
\<close>

fun optional_array :: "json option \<Rightarrow> js_error + json list option" where
  "optional_array None = Inr None"
| "optional_array (Some JsonNull) = Inr None"
| "optional_array (Some (JsonArray xs)) = Inr (Some xs)"
| "optional_array (Some v) = Inl (TypeError [])"

text \<open>\<open>v.toLowerCase()\<close>: only a string has the method.\<close>

fun lower_of :: "json option \<Rightarrow> js_error + string" where
  "lower_of (Some (JsonString s)) = Inr (toLowerCase s)"
| "lower_of v = Inl (TypeError [])"

fun str_includes :: "string \<Rightarrow> string \<Rightarrow> bool" where
  "str_includes [] sub = (sub = [])"
| "str_includes (c # cs) sub = (prefix sub (c # cs) \<or> str_includes cs sub)"

definition startsWith :: "string \<Rightarrow> string \<Rightarrow> bool" where
  "startsWith s p = prefix p s"

text \<open>
  \<open>v.includes(sub)\<close> with a string \<open>sub\<close>: the substring test on a string, the membership
  test on an array, a \<open>TypeError\<close> on every other value.
\<close>

fun includes_of :: "json option \<Rightarrow> string \<Rightarrow> js_error + bool" where
  "includes_of (Some (JsonString s)) sub = Inr (str_includes s sub)"
| "includes_of (Some (JsonArray xs)) sub = Inr (JsonString sub \<in> set xs)"
| "includes_of v sub = Inl (TypeError [])"

text \<open>\<open>s.replace(pat, empty)\<close> with a string pattern: the first occurrence is removed.\<close>

fun remove_first :: "string \<Rightarrow> string \<Rightarrow> string" where
  "remove_first pat [] = []"
| "remove_first pat (c # cs) =
     (if prefix pat (c # cs) then drop (length pat) (c # cs) else c # remove_first pat cs)"

fun js_filter :: "('a \<Rightarrow> js_error + bool) \<Rightarrow> 'a list \<Rightarrow> js_error + 'a list" where
  "js_filter f [] = Inr []"
| "js_filter f (x # xs) =
     (case f x of
        Inl e \<Rightarrow> Inl e
      | Inr keep \<Rightarrow>
          (case js_filter f xs of
             Inl e \<Rightarrow> Inl e
           | Inr ys \<Rightarrow> Inr (if keep then x # ys else ys)))"

fun js_map :: "('a \<Rightarrow> js_error + 'b) \<Rightarrow> 'a list \<Rightarrow> js_error + 'b list" where
  "js_map f [] = Inr []"
| "js_map f (x # xs) =
     (case f x of
        Inl e \<Rightarrow> Inl e
      | Inr y \<Rightarrow> (case js_map f xs of Inl e \<Rightarrow> Inl e | Inr ys \<Rightarrow> Inr (y # ys)))"

text \<open>
  \<open>ToString\<close> of a value of a body, \<open>None\<close> where it raises a \<open>TypeError\<close>: an object
  with an own \<open>toString\<close> property (never callable in JSON) cannot be converted; any
  other object is \<open>[object Object]\<close>; an array is its elements joined by commas, \<open>null\<close>
  elements as the empty string.
\<close>

fun join_parts :: "string option list \<Rightarrow> string option" where
  "join_parts [] = Some []"
| "join_parts [p] = p"
| "join_parts (p # q # ps) =
     (case p of
        None \<Rightarrow> None
      | Some s \<Rightarrow> (case join_parts (q # ps) of None \<Rightarrow> None | Some r \<Rightarrow> Some (s @ '','' @ r)))"

fun to_string :: "json \<Rightarrow> string option" where
  "to_string JsonNull = Some ''null''"
| "to_string (JsonBool b) = Some (if b then ''true'' else ''false'')"
| "to_string (JsonNumber s) = Some s"
| "to_string (JsonString s) = Some s"
| "to_string (JsonArray xs) =
     join_parts (map (\<lambda>x. if x = JsonNull then Some [] else to_string x) xs)"
| "to_string (JsonObject kvs) =
     (if ''toString'' \<in> fst ` set kvs then None else Some ''[object Object]'')"

definition sort_text :: "json \<Rightarrow> string" where
  "sort_text d = (case to_string d of Some s \<Rightarrow> s | None \<Rightarrow> [])"

fun defined_of :: "'a option list \<Rightarrow> 'a list" where
  "defined_of [] = []"
| "defined_of (None # xs) = defined_of xs"
| "defined_of (Some d # xs) = d # defined_of xs"

text \<open>
  \<open>xs.sort()\<close> with the default comparison: the \<open>undefined\<close> elements go last; the others
  are ordered, stably, by the code units of their \<open>ToString\<close>. With fewer than two defined
  elements nothing is compared; with two or more every element is compared at least
  once, so a value that \<open>ToString\<close> cannot convert makes the call raise.
\<close>

definition js_sort :: "json option list \<Rightarrow> js_error + json option list" where
  "js_sort xs =
     (let ds = defined_of xs; n = length xs - length ds in
      if length ds < 2 then Inr (map Some ds @ replicate n None)
      else if list_ex (\<lambda>d. to_string d = None) ds then Inl (TypeError [])
      else Inr (map Some (sort_key sort_text ds) @ replicate n None))"

subsection \<open>The adapters\<close>

text \<open>
  Every adapter but Anthropic's starts the same way: one request, an \<open>Error\<close> on a
  status that is not \<open>ok\<close>, then the parsed body. It is written once here, with the
  provider's display name.
\<close>

definition get_listing ::
  "transport \<Rightarrow> string \<Rightarrow> (string \<times> string) list \<Rightarrow> string \<Rightarrow> js_error + json" where
  "get_listing fetch url headers label =
     (case fetch url headers of
        Rejected e \<Rightarrow> Inl e
      | Responded r \<Rightarrow>
          if \<not> ok r then
            Inl (Error (label @ '' API error: '' @ string_of_nat (status r) @ '' '' @ statusText r))
          else body r)"

text \<open>
  The \<open>catch\<close> of an adapter: it raises a new \<open>Error\<close> whose message is
  \<open>Failed to fetch X models:\<close> followed by the message of the error caught.
\<close>

definition rethrow :: "string \<Rightarrow> js_error + 'a \<Rightarrow> js_error + 'a" where
  "rethrow label r =
     (case r of
        Inl e \<Rightarrow> Inl (Error (''Failed to fetch '' @ label @ '' models: '' @ message e))
      | Inr v \<Rightarrow> Inr v)"

definition and_then :: "js_error + 'a \<Rightarrow> ('a \<Rightarrow> js_error + 'b) \<Rightarrow> js_error + 'b" where
  "and_then r f = (case r of Inl e \<Rightarrow> Inl e | Inr v \<Rightarrow> f v)"

text \<open>
  The tail of an optional chain: \<open>undefined\<close> when the receiver was nullish, the steps
  on the array otherwise; then \<open>return models || null\<close> (an array, even an empty one, is
  truthy).
\<close>

definition chain ::
  "js_error + json list option \<Rightarrow> (json list \<Rightarrow> js_error + json option list) \<Rightarrow>
   js_error + json option list option" where
  "chain receiver steps =
     and_then receiver
       (\<lambda>arr. case arr of None \<Rightarrow> Inr None | Some xs \<Rightarrow> and_then (steps xs) (\<lambda>ms. Inr (Some ms)))"

definition bearer :: "string \<Rightarrow> (string \<times> string) list" where
  "bearer apiKey = [(''Authorization'', ''Bearer '' @ apiKey)]"

definition openai_keep :: "json \<Rightarrow> js_error + bool" where
  "openai_keep model =
     and_then (and_then (get_prop (Some model) ''id'') lower_of)
       (\<lambda>id. Inr (startsWith id ''gpt-'' \<and> \<not> str_includes id ''instruct'' \<and>
                   \<not> str_includes id ''vision'' \<and> \<not> str_includes id ''embedding''))"

definition fetchOpenAIModels :: "transport \<Rightarrow> string \<Rightarrow> js_error + json option list option" where
  "fetchOpenAIModels fetch apiKey =
     rethrow ''OpenAI''
       (and_then (get_listing fetch ''https://api.openai.com/v1/models'' (bearer apiKey) ''OpenAI'')
          (\<lambda>data. chain (and_then (get_prop (Some data) ''data'') optional_array)
             (\<lambda>xs. and_then (js_filter openai_keep xs)
                (\<lambda>kept. and_then (js_map (\<lambda>model. get_prop (Some model) ''id'') kept) js_sort))))"

text \<open>\<open>.map(model => model.id).filter(id => !id.includes(word)).sort()\<close>\<close>

definition ids_without :: "string \<Rightarrow> json list \<Rightarrow> js_error + json option list" where
  "ids_without word xs =
     and_then (js_map (\<lambda>model. get_prop (Some model) ''id'') xs)
       (\<lambda>ids. and_then (js_filter (\<lambda>id. and_then (includes_of id word) (\<lambda>b. Inr (\<not> b))) ids)
          js_sort)"

definition fetchGroqModels :: "transport \<Rightarrow> string \<Rightarrow> js_error + json option list option" where
  "fetchGroqModels fetch apiKey =
     rethrow ''Groq''
       (and_then (get_listing fetch ''https://api.groq.com/openai/v1/models'' (bearer apiKey) ''Groq'')
          (\<lambda>data. chain (and_then (get_prop (Some data) ''data'') optional_array)
             (ids_without ''embedding'')))"

definition fetchAnthropicModels :: "string \<Rightarrow> js_error + json option list option" where
  "fetchAnthropicModels apiKey =
     (if \<not> startsWith apiKey ''sk-ant-'' then Inl (Error ''Invalid Anthropic API key format'')
      else Inr (Some (map (\<lambda>s. Some (JsonString s))
             [''claude-3-5-sonnet-20241022'',
              ''claude-3-opus-20240229'',
              ''claude-3-sonnet-20240229'',
              ''claude-3-haiku-20240307''])))"

definition google_keep :: "json \<Rightarrow> js_error + bool" where
  "google_keep model =
     and_then (and_then (get_prop (Some model) ''name'') lower_of)
       (\<lambda>name. Inr (str_includes name ''gemini'' \<and> \<not> str_includes name ''embedding''))"

fun google_id :: "json option \<Rightarrow> js_error + json option" where
  "google_id (Some (JsonString s)) = Inr (Some (JsonString (remove_first ''models/'' s)))"
| "google_id v = Inl (TypeError [])"

definition fetchGoogleModels :: "transport \<Rightarrow> string \<Rightarrow> js_error + json option list option" where
  "fetchGoogleModels fetch apiKey =
     rethrow ''Google''
       (and_then (get_listing fetch
                    (''https://generativelanguage.googleapis.com/v1beta/models?key='' @ apiKey)
                    [] ''Google'')
          (\<lambda>data. chain (and_then (get_prop (Some data) ''models'') optional_array)
             (\<lambda>xs. and_then (js_filter google_keep xs)
                (\<lambda>kept. and_then
                   (js_map (\<lambda>model. and_then (get_prop (Some model) ''name'') google_id) kept)
                   js_sort))))"

definition fetchMistralModels :: "transport \<Rightarrow> string \<Rightarrow> js_error + json option list option" where
  "fetchMistralModels fetch apiKey =
     rethrow ''Mistral''
       (and_then (get_listing fetch ''https://api.mistral.ai/v1/models'' (bearer apiKey) ''Mistral'')
          (\<lambda>data. chain (and_then (get_prop (Some data) ''data'') optional_array)
             (ids_without ''embed'')))"

definition cohere_keep :: "json \<Rightarrow> js_error + bool" where
  "cohere_keep model =
     and_then (and_then (get_prop (Some model) ''name'') lower_of)
       (\<lambda>name. Inr (str_includes name ''command'' \<or> str_includes name ''chat''))"

definition fetchCohereModels :: "transport \<Rightarrow> string \<Rightarrow> js_error + json option list option" where
  "fetchCohereModels fetch apiKey =
     rethrow ''Cohere''
       (and_then (get_listing fetch ''https://api.cohere.ai/v1/models'' (bearer apiKey) ''Cohere'')
          (\<lambda>data. chain (and_then (get_prop (Some data) ''models'') optional_array)
             (\<lambda>xs. and_then (js_filter cohere_keep xs)
                (\<lambda>kept. and_then (js_map (\<lambda>model. get_prop (Some model) ''name'') kept) js_sort))))"

definition fetchFireworksModels :: "transport \<Rightarrow> string \<Rightarrow> js_error + json option list option" where
  "fetchFireworksModels fetch apiKey =
     rethrow ''Fireworks''
       (and_then (get_listing fetch ''https://api.fireworks.ai/inference/v1/models''
                    (bearer apiKey) ''Fireworks'')
          (\<lambda>data. chain (and_then (get_prop (Some data) ''data'') optional_array)
             (ids_without ''embed'')))"

text \<open>\<open>.map(model => model.id).sort()\<close>\<close>

definition ids_sorted :: "json list \<Rightarrow> js_error + json option list" where
  "ids_sorted xs = and_then (js_map (\<lambda>model. get_prop (Some model) ''id'') xs) js_sort"

definition fetchXaiModels :: "transport \<Rightarrow> string \<Rightarrow> js_error + json option list option" where
  "fetchXaiModels fetch apiKey =
     rethrow ''xAI''
       (and_then (get_listing fetch ''https://api.x.ai/v1/models'' (bearer apiKey) ''xAI'')
          (\<lambda>data. chain (and_then (get_prop (Some data) ''data'') optional_array) ids_sorted))"

definition fetchPerplexityModels :: "transport \<Rightarrow> string \<Rightarrow> js_error + json option list option" where
  "fetchPerplexityModels fetch apiKey =
     rethrow ''Perplexity''
       (and_then (get_listing fetch ''https://api.perplexity.ai/models'' (bearer apiKey) ''Perplexity'')
          (\<lambda>data. chain (and_then (get_prop (Some data) ''data'') optional_array) ids_sorted))"

text \<open>
  The request each adapter with a listing endpoint sends, read off the adapters above:
  the URL and the headers, by lower-cased provider.
\<close>

definition endpoint :: "string \<Rightarrow> string \<Rightarrow> (string \<times> (string \<times> string) list) option" where
  "endpoint p apiKey =
     (if p = ''openai'' then Some (''https://api.openai.com/v1/models'', bearer apiKey)
      else if p = ''groq'' then Some (''https://api.groq.com/openai/v1/models'', bearer apiKey)
      else if p = ''google'' then
        Some (''https://generativelanguage.googleapis.com/v1beta/models?key='' @ apiKey, [])
      else if p = ''mistral'' then Some (''https://api.mistral.ai/v1/models'', bearer apiKey)
      else if p = ''cohere'' then Some (''https://api.cohere.ai/v1/models'', bearer apiKey)
      else if p = ''fireworks'' then
        Some (''https://api.fireworks.ai/inference/v1/models'', bearer apiKey)
      else if p = ''xai'' then Some (''https://api.x.ai/v1/models'', bearer apiKey)
      else if p = ''perplexity'' then Some (''https://api.perplexity.ai/models'', bearer apiKey)
      else None)"

text \<open>
  A list in the order the default \<open>sort\<close> leaves: the defined elements first, their
  \<open>ToString\<close> texts ascending by code units, then the \<open>undefined\<close> ones.
\<close>

definition js_sorted :: "json option list \<Rightarrow> bool" where
  "js_sorted ms =
     (ms = map Some (defined_of ms) @ replicate (length ms - length (defined_of ms)) None
      \<and> sorted (map sort_text (defined_of ms)))"

definition curated_anthropic :: "string list" where
  "curated_anthropic =
     [''claude-3-5-sonnet-20241022'',
      ''claude-3-opus-20240229'',
      ''claude-3-sonnet-20240229'',
      ''claude-3-haiku-20240307'']"

text \<open>
  A request that fails in transport: a rejection, a status that is not \<open>ok\<close>, or a body
  that \<open>response.json()\<close> cannot parse.
\<close>

fun failed :: "http_outcome \<Rightarrow> bool" where
  "failed (Rejected e) = True"
| "failed (Responded r) = (\<not> ok r \<or> (case body r of Inl e \<Rightarrow> True | Inr data \<Rightarrow> False))"

subsection \<open>The dispatch\<close>

text \<open>
  The \<open>switch\<close> on the lower-cased provider: the adapter's result, or \<open>None\<close> in the
  default branch, where no adapter runs.
\<close>

definition call_adapter ::
  "transport \<Rightarrow> string \<Rightarrow> string \<Rightarrow> (js_error + json option list option) option" where
  "call_adapter fetch provider apiKey =
     (let p = toLowerCase provider in
      if p = ''openai'' then Some (fetchOpenAIModels fetch apiKey)
      else if p = ''groq'' then Some (fetchGroqModels fetch apiKey)
      else if p = ''anthropic'' then Some (fetchAnthropicModels apiKey)
      else if p = ''google'' then Some (fetchGoogleModels fetch apiKey)
      else if p = ''mistral'' then Some (fetchMistralModels fetch apiKey)
      else if p = ''cohere'' then Some (fetchCohereModels fetch apiKey)
      else if p = ''fireworks'' then Some (fetchFireworksModels fetch apiKey)
      else if p = ''xai'' then Some (fetchXaiModels fetch apiKey)
      else if p = ''perplexity'' then Some (fetchPerplexityModels fetch apiKey)
      else None)"

text \<open>\<open>try { body } catch (error) { handler }\<close>\<close>

definition try_catch :: "js_error + 'a \<Rightarrow> (js_error \<Rightarrow> js_error + 'a) \<Rightarrow> js_error + 'a" where
  "try_catch r handler = (case r of Inl e \<Rightarrow> handler e | Inr v \<Rightarrow> Inr v)"

text \<open>
  The result is \<open>Inr None\<close> for \<open>null\<close>, \<open>Inr (Some models)\<close> for a list, and \<open>Inl e\<close> would
  be an error raised to the caller. The calls on the spinner only print, and are left
  out.
\<close>

definition fetchModelsFromProvider ::
  "transport \<Rightarrow> string \<Rightarrow> string \<Rightarrow> js_error + json option list option" where
  "fetchModelsFromProvider fetch provider apiKey =
     try_catch
       (case call_adapter fetch provider apiKey of
          None \<Rightarrow> Inr None
        | Some r \<Rightarrow>
            and_then r
              (\<lambda>models. case models of
                 None \<Rightarrow> Inr None
               | Some ms \<Rightarrow> if length ms > 0 then Inr (Some ms) else Inr None))
       (\<lambda>error. Inr None)"

section \<open>Template engine (\<open>generator.ts\<close>)\<close>

text \<open>
  \<open>new RegExp(`\\{\\{${key}\\}\\}`, 'g')\<close>: for a key without regular-expression
  metacharacters (the seven variable names have none) the pattern matches exactly the
  token \<open>{{key}}\<close>.
\<close>

definition placeholder :: "string \<Rightarrow> string" where
  "placeholder key = ''{{'' @ key @ ''}}''"

text \<open>
  The replacement text of one match when the second argument of \<open>replace\<close> is a string:
  \<open>$$\<close> stands for a dollar sign, \<open>$&\<close> for the matched text, \<open>$`\<close> for the subject
  before the match and \<open>$'\<close> for the subject after it. The pattern has no capture group,
  so every other \<open>$\<close> is literal.
\<close>

fun expand :: "string \<Rightarrow> string \<Rightarrow> string \<Rightarrow> string \<Rightarrow> string" where
  "expand (a # b # r) matched pre post =
     (if a = CHR ''$'' \<and> b = CHR ''$'' then CHR ''$'' # expand r matched pre post
      else if a = CHR ''$'' \<and> b = CHR ''&'' then matched @ expand r matched pre post
      else if a = CHR ''$'' \<and> b = CHR 0x60 then pre @ expand r matched pre post
      else if a = CHR ''$'' \<and> b = CHR 0x27 then post @ expand r matched pre post
      else a # expand (b # r) matched pre post)"
| "expand r matched pre post = r"

text \<open>
  \<open>replace\<close> takes whatever value the variable holds. A string is a replacement pattern.
  The function \<open>Object\<close> is callable, so it is used as the replacer: called with the
  match it returns a \<open>String\<close> object of it, whose \<open>ToString\<close> is the match itself. Any
  other value is converted by \<open>ToString\<close>.
\<close>

fun replacement :: "js_value \<Rightarrow> string \<Rightarrow> string \<Rightarrow> string \<Rightarrow> string" where
  "replacement (JString s) matched pre post = expand s matched pre post"
| "replacement JObjectConstructor matched pre post = matched"
| "replacement JObjectPrototype matched pre post = ''[object Object]''"
| "replacement JUndefined matched pre post = ''undefined''"

text \<open>
  \<open>subject.replace(regex, v)\<close> with the global flag: the matches are found left to
  right, each search resuming behind the previous match; \<open>pre\<close> is the part of the
  subject already passed.
\<close>

function replace_all :: "string \<Rightarrow> js_value \<Rightarrow> string \<Rightarrow> string \<Rightarrow> string" where
  "replace_all key v pre [] = []"
| "replace_all key v pre (c # cs) =
     (if prefix (placeholder key) (c # cs)
      then replacement v (placeholder key) pre (drop (length (placeholder key)) (c # cs))
           @ replace_all key v (pre @ placeholder key) (drop (length (placeholder key)) (c # cs))
      else c # replace_all key v (pre @ [c]) cs)"
  by pat_completeness auto
termination
  by (relation "measure (\<lambda>(key, v, pre, s). length s)") (auto simp: placeholder_def)

text \<open>
  The interface declares seven strings. The two fields that \<open>getTemplateVariables\<close>
  fills from the registry hold whatever the registry returned.
\<close>

record TemplateVariables =
  PROJECT_NAME :: string
  PROVIDER :: string
  MODEL :: string
  PROVIDER_PACKAGE :: js_value
  ENV_VAR_NAME :: js_value
  API_KEY_PLACEHOLDER :: string
  FRED_VERSION :: string

text \<open>\<open>Object.entries(vars)\<close>, in the order the properties are created.\<close>

definition entries :: "TemplateVariables \<Rightarrow> (string \<times> js_value) list" where
  "entries vars =
    [(''PROJECT_NAME'', JString (PROJECT_NAME vars)),
     (''PROVIDER'', JString (PROVIDER vars)),
     (''MODEL'', JString (MODEL vars)),
     (''PROVIDER_PACKAGE'', PROVIDER_PACKAGE vars),
     (''ENV_VAR_NAME'', ENV_VAR_NAME vars),
     (''API_KEY_PLACEHOLDER'', JString (API_KEY_PLACEHOLDER vars)),
     (''FRED_VERSION'', JString (FRED_VERSION vars))]"

text \<open>The loop of \<open>processTemplate\<close>, over any list of entries.\<close>

fun processEntries :: "string \<Rightarrow> (string \<times> js_value) list \<Rightarrow> string" where
  "processEntries processed [] = processed"
| "processEntries processed ((key, v) # rest) =
     processEntries (replace_all key v [] processed) rest"

definition processTemplate :: "string \<Rightarrow> TemplateVariables \<Rightarrow> string" where
  "processTemplate content vars = processEntries content (entries vars)"

text \<open>\<open>ToString\<close> of a registry value, as a template literal takes it.\<close>

fun js_to_string :: "js_value \<Rightarrow> string" where
  "js_to_string (JString s) = s"
| "js_to_string JUndefined = ''undefined''"
| "js_to_string JObjectPrototype = ''[object Object]''"
| "js_to_string JObjectConstructor =
     ''function Object() {'' @ [CHR 0x0A] @ ''    [native code]'' @ [CHR 0x0A] @ ''}''"
  \<comment> \<open>the rendering of a built-in function by Bun's engine; its white space varies with the engine\<close>

text \<open>
  What the specification says \<open>render\<close> computes, written from its words: reading the
  content from the left, every occurrence of a supplied variable's placeholder is replaced
  by the variable's value, and every other character is kept. An entry is \<open>matching\<close> a
  text when the text starts with the entry's placeholder.
\<close>

definition matching :: "string \<Rightarrow> string \<times> js_value \<Rightarrow> bool" where
  "matching s kv = prefix (placeholder (fst kv)) s"

function render_spec :: "(string \<times> js_value) list \<Rightarrow> string \<Rightarrow> string" where
  "render_spec vs [] = []"
| "render_spec vs (c # cs) =
     (case find (matching (c # cs)) vs of
        Some kv \<Rightarrow>
          js_to_string (snd kv) @ render_spec vs (drop (length (placeholder (fst kv))) (c # cs))
      | None \<Rightarrow> c # render_spec vs cs)"
  by pat_completeness auto
termination
  by (relation "measure (\<lambda>(vs, s). length s)") (auto simp: placeholder_def)

text \<open>
  The values and contents on which the loop and the specification agree. A value is
  \<open>plain\<close> when it is a non-empty string without a brace or a dollar sign. A content has
  \<open>no_nested\<close> openings when no doubled opening brace is followed, after the text up to
  the next brace character, by another doubled opening brace.
\<close>

definition nonbrace :: "char \<Rightarrow> bool" where
  "nonbrace c = (c \<noteq> CHR ''{'' \<and> c \<noteq> CHR ''}'')"

fun plain :: "js_value \<Rightarrow> bool" where
  "plain (JString s) = (s \<noteq> [] \<and> list_all (\<lambda>c. nonbrace c \<and> c \<noteq> CHR ''$'') s)"
| "plain v = False"

fun no_nested :: "string \<Rightarrow> bool" where
  "no_nested [] = True"
| "no_nested (c # cs) =
     ((prefix ''{{'' (c # cs) \<longrightarrow> \<not> prefix ''{{'' (dropWhile nonbrace (drop 1 cs)))
      \<and> no_nested cs)"

section \<open>Project materializer (\<open>generator.ts\<close>)\<close>

record ProjectOptions =
  projectName :: string
  provider :: string
  model :: string
  apiKey :: "string option"
  includeExamples :: bool
  skipInstall :: bool

text \<open>\<open>options.apiKey\<close> as a condition: present and not the empty string.\<close>

fun supplied :: "string option \<Rightarrow> bool" where
  "supplied None = False"
| "supplied (Some k) = (k \<noteq> [])"

definition getTemplateVariables :: "ProjectOptions \<Rightarrow> TemplateVariables" where
  "getTemplateVariables options =
     \<lparr> PROJECT_NAME = projectName options,
       PROVIDER = provider options,
       MODEL = model options,
       PROVIDER_PACKAGE = getProviderPackageName (provider options),
       ENV_VAR_NAME = getProviderEnvVar (provider options),
       API_KEY_PLACEHOLDER =
         (if supplied (apiKey options) then the (apiKey options) else ''your-api-key-here''),
       FRED_VERSION = ''latest'' \<rparr>"

subsection \<open>The file system\<close>

text \<open>
  The surroundings of a run. The two candidate template roots are given by the files under
  them, keyed by template-relative path (\<open>None\<close>: the directory does not exist).
  \<open>fs_fault\<close> tells which file-system operations are refused (permission denied, disk
  full, ...); such an operation rejects.
\<close>

datatype fs_op = Mkdir string | WriteFile string | ReadFile string

record env =
  devTemplates :: "(string \<rightharpoonup> string) option"
  prodTemplates :: "(string \<rightharpoonup> string) option"
  fs_fault :: "fs_op \<Rightarrow> bool"

text \<open>
  \<open>TemplateNotFound t\<close> is the \<open>Error\<close> with the message \<open>Template file not found:\<close> and
  the full path of \<open>t\<close>; \<open>FsError\<close> is the rejection of a file-system call.
\<close>

datatype gen_error = TemplateNotFound string | FsError fs_op

text \<open>
  The destination tree: its files and directories, by path relative to \<open>destPath\<close>
  (the empty path is \<open>destPath\<close> itself). The manifest's relative paths are distinct and
  normalised, so \<open>join(destPath, p)\<close> is one-to-one on them.
\<close>

record tree =
  files :: "string \<rightharpoonup> string"
  dirs :: "string set"

type_synonym run = "gen_error option \<times> tree"

text \<open>A sequence of awaited steps: the first rejection ends it, with the tree as it is.\<close>

definition then_run :: "run \<Rightarrow> (tree \<Rightarrow> run) \<Rightarrow> run" where
  "then_run r f = (case r of (Some e, t) \<Rightarrow> (Some e, t) | (None, t) \<Rightarrow> f t)"

definition dirname :: "string \<Rightarrow> string" where
  "dirname p = rev (drop 1 (dropWhile (\<lambda>c. c \<noteq> CHR ''/'') (rev p)))"

text \<open>The directory itself and the directories above it, inside the tree.\<close>

definition self_and_ancestors :: "string \<Rightarrow> string list" where
  "self_and_ancestors p = [] # [take i p. i \<leftarrow> [0..<length p], p ! i = CHR ''/''] @ [p]"

text \<open>\<open>mkdir(dir, { recursive: true })\<close>\<close>

definition mkdir :: "env \<Rightarrow> string \<Rightarrow> tree \<Rightarrow> run" where
  "mkdir e dir t =
     (if fs_fault e (Mkdir dir) then (Some (FsError (Mkdir dir)), t)
      else (None, t\<lparr>dirs := dirs t \<union> set (self_and_ancestors dir)\<rparr>))"

text \<open>\<open>writeFile(path, content)\<close>: it needs the directory of the file to exist.\<close>

definition writeFile :: "env \<Rightarrow> string \<Rightarrow> string \<Rightarrow> tree \<Rightarrow> run" where
  "writeFile e path content t =
     (if fs_fault e (WriteFile path) \<or> dirname path \<notin> dirs t
      then (Some (FsError (WriteFile path)), t)
      else (None, t\<lparr>files := (files t)(path \<mapsto> content)\<rparr>))"

text \<open>
  \<open>getTemplateDir\<close>: the development root if it exists, else the packaged root if it
  exists, else the development path again (where nothing exists).
\<close>

definition getTemplateDir :: "env \<Rightarrow> (string \<rightharpoonup> string)" where
  "getTemplateDir e =
     (case devTemplates e of
        Some d \<Rightarrow> d
      | None \<Rightarrow> (case prodTemplates e of Some d \<Rightarrow> d | None \<Rightarrow> Map.empty))"

definition readTemplateFile :: "env \<Rightarrow> string \<Rightarrow> gen_error + string" where
  "readTemplateFile e templatePath =
     (case getTemplateDir e templatePath of
        None \<Rightarrow> Inl (TemplateNotFound templatePath)
      | Some content \<Rightarrow>
          if fs_fault e (ReadFile templatePath) then Inl (FsError (ReadFile templatePath))
          else Inr content)"

definition writeFileToDest :: "env \<Rightarrow> string \<Rightarrow> string \<Rightarrow> tree \<Rightarrow> run" where
  "writeFileToDest e destPath content t =
     then_run (if dirname destPath \<notin> dirs t then mkdir e (dirname destPath) t else (None, t))
       (writeFile e destPath content)"

definition copyTemplateFile ::
  "env \<Rightarrow> string \<Rightarrow> string \<Rightarrow> TemplateVariables \<Rightarrow> tree \<Rightarrow> run" where
  "copyTemplateFile e templatePath destPath vars t =
     (case readTemplateFile e templatePath of
        Inl err \<Rightarrow> (Some err, t)
      | Inr content \<Rightarrow> writeFileToDest e destPath (processTemplate content vars) t)"

subsection \<open>The manifest and the run\<close>

definition core_files :: "(string \<times> string) list" where
  "core_files =
    [(''package.json.template'', ''package.json''),
     (''tsconfig.json.template'', ''tsconfig.json''),
     (''flox.nix.template'', ''flox.nix''),
     (''.env.example.template'', ''.env.example''),
     (''.gitignore.template'', ''.gitignore''),
     (''README.md.template'', ''README.md''),
     (''src/index.ts.template'', ''src/index.ts''),
     (''src/dev-chat.ts.template'', ''src/dev-chat.ts''),
     (''src/server.ts.template'', ''src/server.ts''),
     (''src/config.json.template'', ''src/config.json'')]"

definition example_files :: "(string \<times> string) list" where
  "example_files =
    [(''src/tools/example-tool.ts.template'', ''src/tools/example-tool.ts''),
     (''src/agents/default-agent.ts.template'', ''src/agents/default-agent.ts''),
     (''src/examples/basic.ts.template'', ''src/examples/basic.ts'')]"

text \<open>The list \<open>files\<close> of \<open>generateProject\<close>, after the conditional \<open>push\<close>.\<close>

definition manifest :: "ProjectOptions \<Rightarrow> (string \<times> string) list" where
  "manifest options = core_files @ (if includeExamples options then example_files else [])"

text \<open>The loop that copies and processes every template file, in order.\<close>

fun copyAll :: "env \<Rightarrow> TemplateVariables \<Rightarrow> (string \<times> string) list \<Rightarrow> tree \<Rightarrow> run" where
  "copyAll e vars [] t = (None, t)"
| "copyAll e vars ((templatePath, destFile) # rest) t =
     then_run (copyTemplateFile e templatePath destFile vars t) (copyAll e vars rest)"

definition env_content :: "TemplateVariables \<Rightarrow> string \<Rightarrow> string" where
  "env_content vars key = js_to_string (ENV_VAR_NAME vars) @ ''='' @ key @ [CHR 0x0A]"

definition generateProject :: "env \<Rightarrow> tree \<Rightarrow> ProjectOptions \<Rightarrow> run" where
  "generateProject e t options =
     (let vars = getTemplateVariables options in
      then_run (mkdir e [] t) (\<lambda>t.
      then_run (mkdir e ''src'' t) (\<lambda>t.
      then_run (mkdir e ''src/tools'' t) (\<lambda>t.
      then_run (mkdir e ''src/agents'' t) (\<lambda>t.
      then_run (if includeExamples options then mkdir e ''src/examples'' t else (None, t)) (\<lambda>t.
      then_run (copyAll e vars (manifest options) t) (\<lambda>t.
        if supplied (apiKey options)
        then writeFileToDest e ''.env'' (env_content vars (the (apiKey options))) t
        else (None, t))))))))"

section \<open>Sample inputs\<close>

text \<open>
  The inputs of the repository's tests and of the specification's examples, for the
  concrete runs below: the variable set of the \<open>processTemplate\<close> tests, the options of
  the end-to-end examples (project \<open>p1\<close>, provider \<open>groq\<close>, credential \<open>abc123\<close>), an
  empty destination, and a packaged template root that holds one short template for
  every entry of the manifest.
\<close>

definition sample_vars :: TemplateVariables where
  "sample_vars =
     \<lparr> PROJECT_NAME = ''test-project'',
       PROVIDER = ''openai'',
       MODEL = ''gpt-4'',
       PROVIDER_PACKAGE = JString ''@ai-sdk/openai'',
       ENV_VAR_NAME = JString ''OPENAI_API_KEY'',
       API_KEY_PLACEHOLDER = ''your-key'',
       FRED_VERSION = ''latest'' \<rparr>"

definition sample_options :: ProjectOptions where
  "sample_options =
     \<lparr> projectName = ''p1'',
       provider = ''groq'',
       model = ''gpt-4'',
       apiKey = Some ''abc123'',
       includeExamples = True,
       skipInstall = True \<rparr>"

definition sample_templates :: "string \<rightharpoonup> string" where
  "sample_templates =
     map_of (map (\<lambda>(templatePath, destFile). (templatePath, ''{{PROJECT_NAME}}: '' @ destFile))
               (core_files @ example_files))"

definition sample_env :: env where
  "sample_env =
     \<lparr> devTemplates = None, prodTemplates = Some sample_templates, fs_fault = (\<lambda>op. False) \<rparr>"

definition empty_tree :: tree where
  "empty_tree = \<lparr> files = Map.empty, dirs = {} \<rparr>"

section \<open>Properties of the provider registry\<close>

lemma lower_upper_char: "lower_char (upper_char c) = lower_char c"
  unfolding lower_char_def upper_char_def Let_def by auto

lemma lower_lower_char: "lower_char (lower_char c) = lower_char c"
  unfolding lower_char_def Let_def by auto

lemma toLowerCase_toUpperCase: "toLowerCase (toUpperCase s) = toLowerCase s"
  by (simp add: toLowerCase_def toUpperCase_def lower_upper_char)

lemma toLowerCase_idem: "toLowerCase (toLowerCase s) = toLowerCase s"
  by (simp add: toLowerCase_def lower_lower_char)

lemma record_get_own:
  assumes "key \<in> fst ` set kvs" and "\<forall>v \<in> snd ` set kvs. v \<noteq> []"
  shows "truthy (record_get kvs key)"
proof -
  from assms(1) obtain v where v: "map_of kvs key = Some v"
    by (metis domD dom_map_of_conv_image_fst)
  then have "(key, v) \<in> set kvs" by (rule map_of_SomeD)
  then have "v \<in> snd ` set kvs" by force
  with assms(2) have "v \<noteq> []" by blast
  with v show ?thesis by (simp add: record_get_def)
qed

lemma record_get_absent:
  assumes "key \<notin> fst ` set kvs" "key \<noteq> ''constructor''" "key \<noteq> ''__proto__''"
  shows "record_get kvs key = JUndefined"
proof -
  have "map_of kvs key = None" using assms(1) by (simp add: map_of_eq_None_iff)
  then show ?thesis using assms by (simp add: record_get_def)
qed

lemma js_or_truthy: "truthy a \<Longrightarrow> js_or a b = a"
  by (simp add: js_or_def)

lemma same_keys:
  "map fst envMap = supported_providers" "map fst modelMap = supported_providers"
  by (simp_all add: envMap_def modelMap_def supported_providers_def providerMap_def)

lemma providerMap_truthy:
  "key \<in> set supported_providers \<Longrightarrow> truthy (record_get providerMap key)"
  by (rule record_get_own) (simp_all add: supported_providers_def providerMap_def)

lemma envMap_truthy:
  "key \<in> set supported_providers \<Longrightarrow> truthy (record_get envMap key)"
  by (rule record_get_own) (simp_all add: supported_providers_def providerMap_def envMap_def)

lemma modelMap_truthy:
  "key \<in> set supported_providers \<Longrightarrow> truthy (record_get modelMap key)"
  by (rule record_get_own) (simp_all add: supported_providers_def providerMap_def modelMap_def)

text \<open>
  Claim C4. For every provider identifier in the fixed supported set, written in any
  casing, each of \<open>getProviderPackageName\<close>, \<open>getProviderEnvVar\<close> and \<open>getDefaultModel\<close>
  gives the same result on the identifier, on its upper-cased form and on its
  lower-cased form.
\<close>

theorem registry_case_insensitive:
  assumes "toLowerCase p \<in> set supported_providers"
  shows "getProviderPackageName p = getProviderPackageName (toUpperCase p)
       \<and> getProviderPackageName p = getProviderPackageName (toLowerCase p)
       \<and> getProviderEnvVar p = getProviderEnvVar (toUpperCase p)
       \<and> getProviderEnvVar p = getProviderEnvVar (toLowerCase p)
       \<and> getDefaultModel p = getDefaultModel (toUpperCase p)
       \<and> getDefaultModel p = getDefaultModel (toLowerCase p)"
  using assms
  by (simp add: getProviderPackageName_def getProviderEnvVar_def getDefaultModel_def
      toLowerCase_toUpperCase toLowerCase_idem js_or_truthy
      providerMap_truthy envMap_truthy modelMap_truthy)

theorem registry_case_insensitive_witness:
  "toLowerCase ''Groq'' \<in> set supported_providers
   \<and> getProviderPackageName ''Groq'' = getProviderPackageName (toUpperCase ''Groq'')
   \<and> getProviderPackageName ''Groq'' = getProviderPackageName (toLowerCase ''Groq'')
   \<and> getProviderEnvVar ''Groq'' = getProviderEnvVar (toUpperCase ''Groq'')
   \<and> getProviderEnvVar ''Groq'' = getProviderEnvVar (toLowerCase ''Groq'')
   \<and> getDefaultModel ''Groq'' = getDefaultModel (toUpperCase ''Groq'')
   \<and> getDefaultModel ''Groq'' = getDefaultModel (toLowerCase ''Groq'')
   \<and> getProviderEnvVar ''Groq'' = JString ''GROQ_API_KEY''"
proof -
  have h: "toLowerCase ''Groq'' \<in> set supported_providers" by code_simp
  have v: "getProviderEnvVar ''Groq'' = JString ''GROQ_API_KEY''" by code_simp
  from registry_case_insensitive [OF h] h v show ?thesis by blast
qed

text \<open>
  For an identifier that is not in the supported set in any casing, and whose lower-cased
  form is not the name of a property every object literal inherits, the three functions
  give the synthesized package name, the synthesized variable name and the fallback
  model.
\<close>

lemma registry_fallback:
  assumes "toLowerCase x \<notin> set supported_providers"
    and "toLowerCase x \<noteq> ''constructor''" and "toLowerCase x \<noteq> ''__proto__''"
  shows "getProviderPackageName x = JString (''@ai-sdk/'' @ toLowerCase x)"
    and "getProviderEnvVar x = JString (toUpperCase x @ ''_API_KEY'')"
    and "getDefaultModel x = JString ''gpt-4o-mini''"
proof -
  have p: "record_get providerMap (toLowerCase x) = JUndefined"
    using assms by (intro record_get_absent) (simp_all add: supported_providers_def)
  have e: "record_get envMap (toLowerCase x) = JUndefined"
    using assms
    by (intro record_get_absent) (simp_all add: supported_providers_def providerMap_def envMap_def)
  have m: "record_get modelMap (toLowerCase x) = JUndefined"
    using assms
    by (intro record_get_absent) (simp_all add: supported_providers_def providerMap_def modelMap_def)
  show "getProviderPackageName x = JString (''@ai-sdk/'' @ toLowerCase x)"
    by (simp add: getProviderPackageName_def p js_or_def)
  show "getProviderEnvVar x = JString (toUpperCase x @ ''_API_KEY'')"
    by (simp add: getProviderEnvVar_def e js_or_def)
  show "getDefaultModel x = JString ''gpt-4o-mini''"
    by (simp add: getDefaultModel_def m js_or_def)
qed

text \<open>
  Claim C3 says that for every identifier \<open>x\<close> outside the supported set the three
  functions give \<open>@ai-sdk/\<close> followed by the lower-cased \<open>x\<close>, the upper-cased \<open>x\<close> followed
  by \<open>_API_KEY\<close>, and \<open>gpt-4o-mini\<close>. The identifier \<open>constructor\<close> is outside the
  supported set, and on it each of the three functions returns the built-in function
  \<open>Object\<close>, which the table inherits from \<open>Object.prototype\<close>: a truthy value, so the
  fallback after \<open>||\<close> is not taken, and not a string.
\<close>

theorem registry_inherited_key:
  "''constructor'' \<notin> set supported_providers
   \<and> toLowerCase ''constructor'' \<notin> set supported_providers
   \<and> getProviderPackageName ''constructor'' = JObjectConstructor
   \<and> getProviderPackageName ''constructor'' \<noteq> JString (''@ai-sdk/'' @ toLowerCase ''constructor'')
   \<and> getProviderEnvVar ''constructor'' = JObjectConstructor
   \<and> getProviderEnvVar ''constructor'' \<noteq> JString (toUpperCase ''constructor'' @ ''_API_KEY'')
   \<and> getDefaultModel ''constructor'' = JObjectConstructor
   \<and> getDefaultModel ''constructor'' \<noteq> JString ''gpt-4o-mini''"
  by code_simp

section \<open>Properties of the model fetcher\<close>

subsection \<open>Results of the combinators\<close>

lemma rethrow_Inr: "rethrow label r = Inr v \<Longrightarrow> r = Inr v"
  by (auto simp: rethrow_def split: sum.splits)

lemma rethrow_Inl: "\<exists>e'. rethrow label (Inl e) = Inl e'"
  by (simp add: rethrow_def)

lemma and_then_Inr: "and_then r f = Inr v \<Longrightarrow> \<exists>u. r = Inr u \<and> f u = Inr v"
  by (auto simp: and_then_def split: sum.splits)

lemma and_then_Inl: "and_then (Inl e) f = Inl e"
  by (simp add: and_then_def)

lemma chain_Some: "chain r steps = Inr (Some ms) \<Longrightarrow> \<exists>xs. steps xs = Inr ms"
  by (auto simp: chain_def and_then_def split: sum.splits option.splits)

lemma get_listing_failed:
  assumes "failed (fetch url hs)"
  shows "\<exists>e. get_listing fetch url hs label = Inl e"
proof (cases "fetch url hs")
  case (Rejected e)
  then show ?thesis by (simp add: get_listing_def)
next
  case (Responded r)
  with assms show ?thesis
    by (cases "body r") (auto simp: get_listing_def)
qed

lemma adapter_raises:
  assumes "endpoint (toLowerCase p) k = Some (url, hs)" and "failed (fetch url hs)"
  shows "\<exists>e. call_adapter fetch p k = Some (Inl e)"
proof -
  have "\<exists>e'. rethrow label (and_then (get_listing fetch url hs label) f) = Inl e'"
    for label and f :: "json \<Rightarrow> js_error + json option list option"
  proof -
    from get_listing_failed [of fetch url hs label] assms(2)
    obtain e0 where "get_listing fetch url hs label = Inl e0" by blast
    then show ?thesis by (simp add: and_then_Inl rethrow_def)
  qed
  then show ?thesis
    using assms(1)
    by (auto simp: endpoint_def call_adapter_def Let_def fetchOpenAIModels_def
        fetchGroqModels_def fetchGoogleModels_def fetchMistralModels_def
        fetchCohereModels_def fetchFireworksModels_def fetchXaiModels_def
        fetchPerplexityModels_def split: if_splits)
qed

lemma caught: "call_adapter fetch p k = Some (Inl e) \<Longrightarrow> fetchModelsFromProvider fetch p k = Inr None"
  by (simp add: fetchModelsFromProvider_def try_catch_def and_then_def)

text \<open>
  Claim C1. For every transport, provider identifier and credential,
  \<open>fetchModelsFromProvider\<close> returns and never raises: its result is never an error. When
  the adapter raises, whatever the error, the result is \<open>null\<close>; in particular when the
  adapter's request is rejected, answered with a status that is not \<open>ok\<close>, or answered
  with a body that cannot be parsed.
\<close>

theorem fetchModels_never_raises:
  "(\<exists>r. fetchModelsFromProvider fetch p k = Inr r)
   \<and> (\<forall>e. call_adapter fetch p k = Some (Inl e)
          \<longrightarrow> fetchModelsFromProvider fetch p k = Inr None)
   \<and> (\<forall>url hs. endpoint (toLowerCase p) k = Some (url, hs) \<and> failed (fetch url hs)
          \<longrightarrow> fetchModelsFromProvider fetch p k = Inr None)"
proof -
  have 1: "\<exists>r. fetchModelsFromProvider fetch p k = Inr r"
    by (auto simp: fetchModelsFromProvider_def try_catch_def and_then_def
        split: option.splits sum.splits)
  have 2: "\<forall>e. call_adapter fetch p k = Some (Inl e)
          \<longrightarrow> fetchModelsFromProvider fetch p k = Inr None"
    by (simp add: caught)
  have 3: "\<forall>url hs. endpoint (toLowerCase p) k = Some (url, hs) \<and> failed (fetch url hs)
          \<longrightarrow> fetchModelsFromProvider fetch p k = Inr None"
    using adapter_raises caught by blast
  from 1 2 3 show ?thesis by blast
qed

theorem fetchModels_never_raises_witness:
  "endpoint (toLowerCase ''OpenAI'') ''key''
     = Some (''https://api.openai.com/v1/models'', [(''Authorization'', ''Bearer key'')])
   \<and> failed (Responded \<lparr>status = 503, statusText = ''Service Unavailable'', body = Inr JsonNull\<rparr>)
   \<and> call_adapter
       (\<lambda>url hs. Responded \<lparr>status = 503, statusText = ''Service Unavailable'', body = Inr JsonNull\<rparr>)
       ''OpenAI'' ''key''
     = Some (Inl (Error
         ''Failed to fetch OpenAI models: OpenAI API error: 503 Service Unavailable''))
   \<and> fetchModelsFromProvider
       (\<lambda>url hs. Responded \<lparr>status = 503, statusText = ''Service Unavailable'', body = Inr JsonNull\<rparr>)
       ''OpenAI'' ''key''
     = Inr None"
proof -
  let ?fetch = "\<lambda>(url :: string) (hs :: (string \<times> string) list).
    Responded \<lparr>status = 503, statusText = ''Service Unavailable'', body = Inr JsonNull\<rparr>"
  have a: "endpoint (toLowerCase ''OpenAI'') ''key''
     = Some (''https://api.openai.com/v1/models'', [(''Authorization'', ''Bearer key'')])"
    by code_simp
  have b: "failed (Responded \<lparr>status = 503, statusText = ''Service Unavailable'', body = Inr JsonNull\<rparr>)"
    by code_simp
  have c: "call_adapter ?fetch ''OpenAI'' ''key''
     = Some (Inl (Error
         ''Failed to fetch OpenAI models: OpenAI API error: 503 Service Unavailable''))"
    by code_simp
  from fetchModels_never_raises [of ?fetch "''OpenAI''" "''key''"] c
  have "fetchModelsFromProvider ?fetch ''OpenAI'' ''key'' = Inr None" by blast
  with a b c show ?thesis by blast
qed

text \<open>
  Claim C10. \<open>fetchModelsFromProvider\<close> never returns an empty list: the result is
  \<open>null\<close> or a list with at least one element, and an adapter that returns the empty
  list makes the result \<open>null\<close>.
\<close>

theorem fetchModels_never_empty:
  "fetchModelsFromProvider fetch p k \<noteq> Inr (Some [])
   \<and> (fetchModelsFromProvider fetch p k = Inr None
      \<or> (\<exists>m ms. fetchModelsFromProvider fetch p k = Inr (Some (m # ms))))
   \<and> (call_adapter fetch p k = Some (Inr (Some []))
        \<longrightarrow> fetchModelsFromProvider fetch p k = Inr None)"
  by (auto simp: fetchModelsFromProvider_def try_catch_def and_then_def neq_Nil_conv
      split: option.splits sum.splits)

theorem fetchModels_never_empty_witness:
  "call_adapter
     (\<lambda>url hs. Responded \<lparr>status = 200, statusText = ''OK'',
                  body = Inr (JsonObject [(''data'', JsonArray [])])\<rparr>)
     ''xai'' ''key''
     = Some (Inr (Some []))
   \<and> fetchModelsFromProvider
       (\<lambda>url hs. Responded \<lparr>status = 200, statusText = ''OK'',
                    body = Inr (JsonObject [(''data'', JsonArray [])])\<rparr>)
       ''xai'' ''key''
     = Inr None"
proof -
  let ?fetch = "\<lambda>(url :: string) (hs :: (string \<times> string) list).
    Responded \<lparr>status = 200, statusText = ''OK'',
               body = Inr (JsonObject [(''data'', JsonArray [])])\<rparr>"
  have c: "call_adapter ?fetch ''xai'' ''key'' = Some (Inr (Some []))"
    by code_simp
  from fetchModels_never_empty [of ?fetch "''xai''" "''key''"] c
  have "fetchModelsFromProvider ?fetch ''xai'' ''key'' = Inr None" by blast
  with c show ?thesis by blast
qed

subsection \<open>Order of the returned list\<close>

lemma defined_of_Some_replicate: "defined_of (map Some ds @ replicate n None) = ds"
proof (induction ds)
  case Nil
  show ?case by (induction n) auto
next
  case (Cons d ds)
  then show ?case by simp
qed

lemma sorted_short: "length xs < 2 \<Longrightarrow> sorted xs"
  by (cases xs; cases "tl xs") auto

lemma js_sort_sorted:
  assumes "js_sort xs = Inr ys"
  shows "js_sorted ys"
proof -
  let ?ds = "defined_of xs"
  let ?n = "length xs - length ?ds"
  show ?thesis
  proof (cases "length ?ds < 2")
    case True
    then have ys: "ys = map Some ?ds @ replicate ?n None"
      using assms by (simp add: js_sort_def Let_def)
    have "sorted (map sort_text ?ds)" using True by (intro sorted_short) simp
    then show ?thesis by (simp add: js_sorted_def ys defined_of_Some_replicate)
  next
    case False
    then have ys: "ys = map Some (sort_key sort_text ?ds) @ replicate ?n None"
      using assms by (simp add: js_sort_def Let_def split: if_splits)
    show ?thesis by (simp add: js_sorted_def ys defined_of_Some_replicate)
  qed
qed

lemma ids_without_sorted: "ids_without w xs = Inr ms \<Longrightarrow> js_sorted ms"
  unfolding ids_without_def by (auto dest!: and_then_Inr js_sort_sorted)

lemma ids_sorted_sorted: "ids_sorted xs = Inr ms \<Longrightarrow> js_sorted ms"
  unfolding ids_sorted_def by (auto dest!: and_then_Inr js_sort_sorted)

lemma openai_sorted: "fetchOpenAIModels fetch k = Inr (Some ms) \<Longrightarrow> js_sorted ms"
  unfolding fetchOpenAIModels_def
  by (auto dest!: rethrow_Inr and_then_Inr chain_Some js_sort_sorted)

lemma groq_sorted: "fetchGroqModels fetch k = Inr (Some ms) \<Longrightarrow> js_sorted ms"
  unfolding fetchGroqModels_def
  by (auto dest!: rethrow_Inr and_then_Inr chain_Some ids_without_sorted)

lemma google_sorted: "fetchGoogleModels fetch k = Inr (Some ms) \<Longrightarrow> js_sorted ms"
  unfolding fetchGoogleModels_def
  by (auto dest!: rethrow_Inr and_then_Inr chain_Some js_sort_sorted)

lemma mistral_sorted: "fetchMistralModels fetch k = Inr (Some ms) \<Longrightarrow> js_sorted ms"
  unfolding fetchMistralModels_def
  by (auto dest!: rethrow_Inr and_then_Inr chain_Some ids_without_sorted)

lemma cohere_sorted: "fetchCohereModels fetch k = Inr (Some ms) \<Longrightarrow> js_sorted ms"
  unfolding fetchCohereModels_def
  by (auto dest!: rethrow_Inr and_then_Inr chain_Some js_sort_sorted)

lemma fireworks_sorted: "fetchFireworksModels fetch k = Inr (Some ms) \<Longrightarrow> js_sorted ms"
  unfolding fetchFireworksModels_def
  by (auto dest!: rethrow_Inr and_then_Inr chain_Some ids_without_sorted)

lemma xai_sorted: "fetchXaiModels fetch k = Inr (Some ms) \<Longrightarrow> js_sorted ms"
  unfolding fetchXaiModels_def
  by (auto dest!: rethrow_Inr and_then_Inr chain_Some ids_sorted_sorted)

lemma perplexity_sorted: "fetchPerplexityModels fetch k = Inr (Some ms) \<Longrightarrow> js_sorted ms"
  unfolding fetchPerplexityModels_def
  by (auto dest!: rethrow_Inr and_then_Inr chain_Some ids_sorted_sorted)

lemma fetchModels_Some:
  "fetchModelsFromProvider fetch p k = Inr (Some ms)
   \<Longrightarrow> call_adapter fetch p k = Some (Inr (Some ms))"
  by (auto simp: fetchModelsFromProvider_def try_catch_def and_then_def
      split: option.splits sum.splits if_splits)

lemma js_sorted_strings:
  assumes "js_sorted (map (\<lambda>s. Some (JsonString s)) ss)"
  shows "sorted ss"
proof -
  have d: "defined_of (map (\<lambda>s. Some (JsonString s)) ss) = map JsonString ss"
    by (induction ss) auto
  have "map sort_text (map JsonString ss) = ss"
    by (induction ss) (auto simp: sort_text_def)
  with assms d show ?thesis by (simp add: js_sorted_def)
qed

text \<open>
  Claim C5, as the code has it. Whenever \<open>fetchModelsFromProvider\<close> returns a list for a
  provider other than \<open>anthropic\<close> (the providers with a listing endpoint), the list is
  in the order of the default \<open>sort\<close>, and a list of strings is sorted
  lexicographically. For \<open>anthropic\<close> the list returned is the curated list, in the order
  it is written in the code.
\<close>

theorem fetched_list_sorted:
  assumes "fetchModelsFromProvider fetch p k = Inr (Some ms)"
  shows "(toLowerCase p \<noteq> ''anthropic'' \<longrightarrow>
            js_sorted ms \<and> (\<forall>ss. ms = map (\<lambda>s. Some (JsonString s)) ss \<longrightarrow> sorted ss))
       \<and> (toLowerCase p = ''anthropic'' \<longrightarrow>
            ms = map (\<lambda>s. Some (JsonString s)) curated_anthropic)"
proof -
  from assms have c: "call_adapter fetch p k = Some (Inr (Some ms))"
    by (rule fetchModels_Some)
  have a: "toLowerCase p = ''anthropic'' \<longrightarrow>
            ms = map (\<lambda>s. Some (JsonString s)) curated_anthropic"
    using c by (auto simp: call_adapter_def Let_def fetchAnthropicModels_def curated_anthropic_def
        split: if_splits)
  have s: "js_sorted ms" if "toLowerCase p \<noteq> ''anthropic''"
    using c that
    by (auto simp: call_adapter_def Let_def split: if_splits
        dest: openai_sorted groq_sorted google_sorted mistral_sorted cohere_sorted
          fireworks_sorted xai_sorted perplexity_sorted)
  show ?thesis using a s js_sorted_strings by blast
qed

theorem fetched_list_sorted_witness:
  "fetchModelsFromProvider
     (\<lambda>url hs. Responded \<lparr>status = 200, statusText = ''OK'',
        body = Inr (JsonObject [(''data'', JsonArray
                 [JsonObject [(''id'', JsonString ''gpt-4'')],
                  JsonObject [(''id'', JsonString ''gpt-3.5-turbo'')],
                  JsonObject [(''id'', JsonString ''dall-e'')]])])\<rparr>)
     ''OpenAI'' ''key''
     = Inr (Some [Some (JsonString ''gpt-3.5-turbo''), Some (JsonString ''gpt-4'')])
   \<and> toLowerCase ''OpenAI'' \<noteq> ''anthropic''
   \<and> js_sorted [Some (JsonString ''gpt-3.5-turbo''), Some (JsonString ''gpt-4'')]
   \<and> sorted [''gpt-3.5-turbo'', ''gpt-4'']"
proof -
  let ?fetch = "\<lambda>(url :: string) (hs :: (string \<times> string) list).
    Responded \<lparr>status = 200, statusText = ''OK'',
        body = Inr (JsonObject [(''data'', JsonArray
                 [JsonObject [(''id'', JsonString ''gpt-4'')],
                  JsonObject [(''id'', JsonString ''gpt-3.5-turbo'')],
                  JsonObject [(''id'', JsonString ''dall-e'')]])])\<rparr>"
  have r: "fetchModelsFromProvider ?fetch ''OpenAI'' ''key''
     = Inr (Some [Some (JsonString ''gpt-3.5-turbo''), Some (JsonString ''gpt-4'')])"
    by code_simp
  have n: "toLowerCase ''OpenAI'' \<noteq> ''anthropic''" by code_simp
  from fetched_list_sorted [OF r] n
  have "js_sorted [Some (JsonString ''gpt-3.5-turbo''), Some (JsonString ''gpt-4'')]"
    and "sorted [''gpt-3.5-turbo'', ''gpt-4'']"
    by auto
  with r n show ?thesis by blast
qed

text \<open>
  Claim C5 as stated fails on the curated list: with a credential of the accepted shape
  the \<open>anthropic\<close> adapter returns its four identifiers in the order of the code, and
  \<open>claude-3-sonnet-20240229\<close> stands before \<open>claude-3-haiku-20240307\<close>.
\<close>

theorem curated_list_unsorted:
  "fetchModelsFromProvider (\<lambda>url hs. Rejected (Error [])) ''anthropic'' ''sk-ant-key''
     = Inr (Some (map (\<lambda>s. Some (JsonString s)) curated_anthropic))
   \<and> \<not> sorted curated_anthropic
   \<and> \<not> js_sorted (map (\<lambda>s. Some (JsonString s)) curated_anthropic)"
  by code_simp

section \<open>Properties of the template engine\<close>

subsection \<open>One replacement pass\<close>

lemma expand_plain: "list_all (\<lambda>c. c \<noteq> CHR ''$'') s \<Longrightarrow> expand s m pre post = s"
  by (induction s m pre post rule: expand.induct) auto

lemma replacement_plain: "plain v \<Longrightarrow> replacement v m pre post = js_to_string v"
  by (cases v) (auto simp: expand_plain list_all_iff)

lemma placeholder_Cons: "placeholder k = CHR ''{'' # CHR ''{'' # k @ ''}}''"
  by (simp add: placeholder_def)

lemma placeholder_length: "length (placeholder k) = length k + 4"
  by (simp add: placeholder_def)

lemma replace_all_pre:
  "plain v \<Longrightarrow> replace_all k v pre s = replace_all k v pre' s"
proof (induction k v pre s arbitrary: pre' rule: replace_all.induct)
  case (1 key v pre)
  then show ?case by simp
next
  case (2 key v pre c cs)
  show ?case
  proof (cases "prefix (placeholder key) (c # cs)")
    case True
    with 2(1) [OF True 2(3), of "pre' @ placeholder key"] 2(3) show ?thesis
      by (simp add: replacement_plain)
  next
    case False
    with 2(2) [OF False 2(3), of "pre' @ [c]"] show ?thesis by simp
  qed
qed

lemma R_no:
  "plain v \<Longrightarrow> \<not> prefix (placeholder k) (c # cs)
   \<Longrightarrow> replace_all k v [] (c # cs) = c # replace_all k v [] cs"
  using replace_all_pre [of v k "[c]" cs "[]"] by simp

lemma R_tok:
  "plain v \<Longrightarrow> replace_all k v [] (placeholder k @ s) = js_to_string v @ replace_all k v [] s"
  using replace_all_pre [of v k "placeholder k" s "[]"]
  by (simp add: placeholder_Cons replacement_plain)

lemma not_prefix_placeholder: "c \<noteq> CHR ''{'' \<Longrightarrow> \<not> prefix (placeholder k) (c # cs)"
  by (simp add: placeholder_Cons)

lemma R_skip:
  "plain v \<Longrightarrow> list_all (\<lambda>c. c \<noteq> CHR ''{'') a
   \<Longrightarrow> replace_all k v [] (a @ s) = a @ replace_all k v [] s"
  by (induction a) (auto simp: R_no not_prefix_placeholder simp del: replace_all.simps)

subsection \<open>The specification's reading\<close>

lemma find_in_append:
  "find P (xs @ ys) = (case find P xs of Some x \<Rightarrow> Some x | None \<Rightarrow> find P ys)"
  by (induction xs) auto

lemma render_None:
  "find (matching (c # cs)) vs = None \<Longrightarrow> render_spec vs (c # cs) = c # render_spec vs cs"
  by simp

lemma render_Some:
  "find (matching (c # cs)) vs = Some kv
   \<Longrightarrow> render_spec vs (c # cs)
       = js_to_string (snd kv) @ render_spec vs (drop (length (placeholder (fst kv))) (c # cs))"
  by simp

lemma no_match_head: "c \<noteq> CHR ''{'' \<Longrightarrow> find (matching (c # cs)) vs = None"
  by (simp add: find_None_iff matching_def not_prefix_placeholder)

lemma no_match_second: "d \<noteq> CHR ''{'' \<Longrightarrow> find (matching (c # d # cs)) vs = None"
  by (simp add: find_None_iff matching_def placeholder_Cons)

lemma render_skip:
  "list_all (\<lambda>c. c \<noteq> CHR ''{'') a \<Longrightarrow> render_spec vs (a @ s) = a @ render_spec vs s"
proof (induction a)
  case Nil
  show ?case by simp
next
  case (Cons c a)
  then have "render_spec vs (c # (a @ s)) = c # render_spec vs (a @ s)"
    by (intro render_None no_match_head) simp
  with Cons show ?case by simp
qed

lemma nonbrace_not_open: "nonbrace c \<Longrightarrow> c \<noteq> CHR ''{''"
  by (simp add: nonbrace_def)

lemma render_token:
  assumes "find (matching (placeholder k @ s)) vs = None" and "list_all nonbrace k"
  shows "render_spec vs (placeholder k @ s) = placeholder k @ render_spec vs s"
proof -
  have a: "list_all (\<lambda>c. c \<noteq> CHR ''{'') (k @ ''}}'')"
    using assms(2) by (auto simp: list_all_iff nonbrace_def)
  have 1: "render_spec vs (placeholder k @ s)
           = CHR ''{'' # render_spec vs (CHR ''{'' # (k @ ''}}'') @ s)"
    using assms(1) by (simp add: placeholder_Cons del: render_spec.simps add: render_None)
  have "hd ((k @ ''}}'') @ s) \<noteq> CHR ''{''"
    using assms(2) by (cases k) (auto simp: nonbrace_def)
  then have "find (matching (CHR ''{'' # (k @ ''}}'') @ s)) vs = None"
    by (cases "(k @ ''}}'') @ s") (simp_all add: no_match_second)
  then have 2: "render_spec vs (CHR ''{'' # (k @ ''}}'') @ s)
           = CHR ''{'' # render_spec vs ((k @ ''}}'') @ s)"
    by (rule render_None)
  show ?thesis
    unfolding 1 2 render_skip [OF a] by (simp add: placeholder_Cons)
qed

text \<open>The output starts with a brace only where the content does.\<close>

lemma render_brace_head:
  assumes "\<forall>kv \<in> set vs. plain (snd kv)" and "\<not> nonbrace b"
    and "render_spec vs s = b # out"
  shows "\<exists>s'. s = b # s' \<and> find (matching s) vs = None \<and> render_spec vs s' = out"
proof (cases s)
  case Nil
  with assms(3) show ?thesis by simp
next
  case (Cons c cs)
  show ?thesis
  proof (cases "find (matching (c # cs)) vs")
    case None
    with assms(3) Cons show ?thesis by simp
  next
    case (Some kv)
    then have "kv \<in> set vs" by (auto simp: find_Some_iff)
    with assms(1) have p: "plain (snd kv)" by blast
    then obtain t where t: "snd kv = JString t" "t \<noteq> []" "list_all nonbrace t"
      by (cases "snd kv") (auto simp: list_all_iff)
    then obtain x xs where "t = x # xs" "nonbrace x" by (cases t) auto
    with Some assms(3) Cons t(1) have "b = x" by simp
    with \<open>nonbrace x\<close> assms(2) show ?thesis by simp
  qed
qed

subsection \<open>A pass over a rendered content\<close>

lemma matching_open: "matching s kv \<Longrightarrow> prefix ''{{'' s"
  by (auto simp: matching_def placeholder_Cons prefix_def)

lemma dropWhile_brace: "prefix ''{{'' s \<Longrightarrow> dropWhile nonbrace s = s"
  by (cases s) (auto simp: nonbrace_def)

lemma no_match_if_closed:
  assumes "\<not> prefix ''{{'' (dropWhile nonbrace s)"
  shows "find (matching s) vs = None"
proof (cases "find (matching s) vs")
  case None
  then show ?thesis .
next
  case (Some kv)
  then have "matching s kv" by (auto simp: find_Some_iff)
  then have "prefix ''{{'' s" by (rule matching_open)
  with assms show ?thesis by (simp add: dropWhile_brace)
qed

lemma render_name_close:
  assumes "\<forall>kv \<in> set vs. plain (snd kv)" and "list_all nonbrace q"
    and "prefix (q @ ''}}'') (render_spec vs s)"
    and "\<not> prefix ''{{'' (dropWhile nonbrace s)"
  shows "prefix (q @ ''}}'') s"
  using assms(2-4)
proof (induction q arbitrary: s)
  case Nil
  from Nil(3) have none: "find (matching s) vs = None" by (rule no_match_if_closed)
  from Nil(2) obtain y s' where s: "s = y # s'" by (cases s) auto
  with none have r: "render_spec vs s = y # render_spec vs s'" by simp
  with Nil(2) have y: "y = CHR ''}''" and "prefix ''}'' (render_spec vs s')" by auto
  then obtain out where "render_spec vs s' = CHR ''}'' # out" by (auto simp: prefix_def)
  from render_brace_head [OF assms(1) _ this] obtain s'' where "s' = CHR ''}'' # s''"
    by (auto simp: nonbrace_def)
  with s y show ?case by simp
next
  case (Cons a q)
  from Cons.prems(3) have none: "find (matching s) vs = None" by (rule no_match_if_closed)
  from Cons.prems(2) obtain y s' where s: "s = y # s'" by (cases s) auto
  with none have r: "render_spec vs s = y # render_spec vs s'" by simp
  with Cons.prems(2) have y: "y = a" and p: "prefix (q @ ''}}'') (render_spec vs s')" by auto
  from Cons.prems(1) have a: "nonbrace a" and q: "list_all nonbrace q" by auto
  from Cons.prems(3) s y a have "\<not> prefix ''{{'' (dropWhile nonbrace s')" by simp
  from Cons.IH [OF q p this] s y show ?case by simp
qed

lemma no_new_token:
  assumes vals: "\<forall>kv \<in> set vs. plain (snd kv)" and k: "list_all nonbrace k"
    and nn: "no_nested (x # cs)"
    and np: "\<not> prefix (placeholder k) (x # cs)"
  shows "\<not> prefix (placeholder k) (x # render_spec vs cs)"
proof
  assume a: "prefix (placeholder k) (x # render_spec vs cs)"
  then have x: "x = CHR ''{''" and "prefix (CHR ''{'' # k @ ''}}'') (render_spec vs cs)"
    by (auto simp: placeholder_Cons)
  then obtain out where out: "render_spec vs cs = CHR ''{'' # out" and p: "prefix (k @ ''}}'') out"
    by (cases "render_spec vs cs") auto
  from render_brace_head [OF vals _ out] obtain cs2
    where cs: "cs = CHR ''{'' # cs2" and r: "render_spec vs cs2 = out"
    by (auto simp: nonbrace_def)
  from nn x cs have "\<not> prefix ''{{'' (dropWhile nonbrace cs2)" by simp
  from render_name_close [OF vals k _ this] p r have "prefix (k @ ''}}'') cs2" by simp
  with x cs have "prefix (placeholder k) (x # cs)" by (simp add: placeholder_Cons)
  with np show False by contradiction
qed

lemma no_nested_drop: "no_nested s \<Longrightarrow> no_nested (drop n s)"
proof (induction s arbitrary: n)
  case Nil
  show ?case by simp
next
  case (Cons c s)
  then show ?case by (cases n) auto
qed

lemma plain_text:
  assumes "plain v"
  shows "list_all (\<lambda>c. c \<noteq> CHR ''{'') (js_to_string v)"
  using assms by (cases v) (auto simp: list_all_iff nonbrace_def)

lemma replace_after_render:
  assumes vals: "\<forall>kv \<in> set vs. plain (snd kv)" and v: "plain v"
    and k: "list_all nonbrace k" and nn: "no_nested c"
  shows "replace_all k v [] (render_spec vs c) = render_spec (vs @ [(k, v)]) c"
  using nn
proof (induction c rule: length_induct)
  case (1 c)
  show ?case
  proof (cases c)
    case Nil
    then show ?thesis by simp
  next
    case (Cons x cs)
    show ?thesis
    proof (cases "find (matching (x # cs)) vs")
      case (Some kv)
      let ?c' = "drop (length (placeholder (fst kv))) (x # cs)"
      from Some have "kv \<in> set vs" by (auto simp: find_Some_iff)
      with vals have pk: "plain (snd kv)" by blast
      have len: "length ?c' < length c" using Cons by (simp add: placeholder_length)
      have nn': "no_nested ?c'" using 1(2) Cons no_nested_drop by blast
      from 1(1) len nn' have IH:
        "replace_all k v [] (render_spec vs ?c') = render_spec (vs @ [(k, v)]) ?c'" by blast
      have l: "render_spec vs c = js_to_string (snd kv) @ render_spec vs ?c'"
        using Some Cons by simp
      have f: "find (matching (x # cs)) (vs @ [(k, v)]) = Some kv"
        using Some by (simp add: find_in_append)
      have r: "render_spec (vs @ [(k, v)]) c
               = js_to_string (snd kv) @ render_spec (vs @ [(k, v)]) ?c'"
        unfolding Cons by (rule render_Some [OF f])
      show ?thesis
        unfolding l r using IH by (simp add: R_skip [OF v plain_text [OF pk]])
    next
      case None
      show ?thesis
      proof (cases "prefix (placeholder k) (x # cs)")
        case True
        let ?c' = "drop (length (placeholder k)) (x # cs)"
        from True have c: "x # cs = placeholder k @ ?c'"
          by (metis append_take_drop_id prefix_def append_eq_conv_conj)
        have len: "length ?c' < length c" using Cons by (simp add: placeholder_length)
        have nn': "no_nested ?c'" using 1(2) Cons no_nested_drop by blast
        from 1(1) len nn' have IH:
          "replace_all k v [] (render_spec vs ?c') = render_spec (vs @ [(k, v)]) ?c'" by blast
        have "find (matching (placeholder k @ ?c')) vs = None" using None c by simp
        from render_token [OF this k]
        have l: "render_spec vs c = placeholder k @ render_spec vs ?c'"
          using c Cons by simp
        have f: "find (matching (x # cs)) (vs @ [(k, v)]) = Some (k, v)"
          using None True by (simp add: find_in_append matching_def)
        have r: "render_spec (vs @ [(k, v)]) c
                 = js_to_string v @ render_spec (vs @ [(k, v)]) ?c'"
          unfolding Cons using render_Some [OF f] by simp
        show ?thesis unfolding l r using IH by (simp add: R_tok [OF v])
      next
        case False
        have len: "length cs < length c" using Cons by simp
        have nn': "no_nested cs" using 1(2) Cons by simp
        from 1(1) len nn' have IH:
          "replace_all k v [] (render_spec vs cs) = render_spec (vs @ [(k, v)]) cs" by blast
        have l: "render_spec vs c = x # render_spec vs cs" using None Cons by simp
        have f: "find (matching (x # cs)) (vs @ [(k, v)]) = None"
          using None False by (simp add: find_in_append matching_def)
        have r: "render_spec (vs @ [(k, v)]) c = x # render_spec (vs @ [(k, v)]) cs"
          unfolding Cons by (rule render_None [OF f])
        have nnc: "no_nested (x # cs)" using 1(2) unfolding Cons .
        have "\<not> prefix (placeholder k) (x # render_spec vs cs)"
          by (rule no_new_token [OF vals k nnc False])
        from R_no [OF v this] show ?thesis unfolding l r using IH by simp
      qed
    qed
  qed
qed

lemma render_no_entries: "render_spec [] c = c"
  by (induction c) simp_all

lemma process_after_render:
  assumes "\<forall>kv \<in> set vs. plain (snd kv)"
    and "\<forall>kv \<in> set es. plain (snd kv) \<and> list_all nonbrace (fst kv)"
    and "no_nested c"
  shows "processEntries (render_spec vs c) es = render_spec (vs @ es) c"
  using assms(1,2)
proof (induction es arbitrary: vs)
  case Nil
  show ?case by simp
next
  case (Cons e es)
  obtain k v where e: "e = (k, v)" by (cases e)
  from Cons.prems e have v: "plain v" and k: "list_all nonbrace k" by auto
  have 1: "replace_all k v [] (render_spec vs c) = render_spec (vs @ [(k, v)]) c"
    by (rule replace_after_render [OF Cons.prems(1) v k assms(3)])
  have 2: "\<forall>kv \<in> set (vs @ [(k, v)]). plain (snd kv)" using Cons.prems(1) v by auto
  have 3: "\<forall>kv \<in> set es. plain (snd kv) \<and> list_all nonbrace (fst kv)" using Cons.prems(2) by simp
  from Cons.IH [OF 2 3] show ?case by (simp add: e 1)
qed

lemma process_is_render:
  assumes "\<forall>kv \<in> set es. plain (snd kv) \<and> list_all nonbrace (fst kv)" and "no_nested c"
  shows "processEntries c es = render_spec es c"
  using process_after_render [of "[]" es c] assms by (simp add: render_no_entries)

subsection \<open>The order of the entries\<close>

lemma name_close_unique:
  assumes "list_all nonbrace k" "list_all nonbrace k'"
    and "prefix (k @ ''}}'') s" "prefix (k' @ ''}}'') s"
  shows "k = k'"
  using assms
proof (induction k arbitrary: k' s)
  case Nil
  then show ?case by (cases k') (auto simp: nonbrace_def prefix_def)
next
  case (Cons a k)
  show ?case
  proof (cases k')
    case Nil
    with Cons.prems show ?thesis by (auto simp: nonbrace_def prefix_def)
  next
    case (Cons a' k1)
    with Cons.prems obtain s' where s: "s = a # s'" "a' = a" by (auto simp: prefix_def)
    from Cons.IH [of k1 s'] Cons.prems \<open>k' = a' # k1\<close> s show ?thesis by simp
  qed
qed

lemma matching_unique:
  assumes "matching s kv" "matching s kv'"
    and "list_all nonbrace (fst kv)" "list_all nonbrace (fst kv')"
  shows "fst kv = fst kv'"
proof -
  from assms(1,2) obtain s' where "s = ''{{'' @ s'"
    "prefix (fst kv @ ''}}'') s'" "prefix (fst kv' @ ''}}'') s'"
    by (cases s; cases "tl s") (auto simp: matching_def placeholder_Cons)
  with assms(3,4) show ?thesis using name_close_unique by blast
qed

lemma find_matching_iff:
  assumes "distinct (map fst es)" and "\<forall>kv \<in> set es. list_all nonbrace (fst kv)"
  shows "find (matching s) es = Some kv \<longleftrightarrow> kv \<in> set es \<and> matching s kv"
proof
  assume "find (matching s) es = Some kv"
  then show "kv \<in> set es \<and> matching s kv" by (auto simp: find_Some_iff)
next
  assume a: "kv \<in> set es \<and> matching s kv"
  then have "find (matching s) es \<noteq> None" by (metis find_None_iff)
  then obtain kv' where f: "find (matching s) es = Some kv'" by auto
  then have b: "kv' \<in> set es" "matching s kv'" by (auto simp: find_Some_iff)
  with a assms(2) have "fst kv = fst kv'" by (intro matching_unique [of s]) auto
  with assms(1) a b have "kv = kv'"
    by (metis eq_key_imp_eq_value prod.collapse)
  with f show "find (matching s) es = Some kv" by simp
qed

lemma find_matching_perm:
  assumes "distinct (map fst es)" and "\<forall>kv \<in> set es. list_all nonbrace (fst kv)"
    and "mset es' = mset es"
  shows "find (matching s) es' = find (matching s) es"
proof -
  have set: "set es' = set es" using assms(3) by (rule mset_eq_setD)
  have "mset (map fst es') = mset (map fst es)" using assms(3) by simp
  then have d: "distinct (map fst es')" using assms(1) by (metis mset_eq_imp_distinct_iff)
  have n: "\<forall>kv \<in> set es'. list_all nonbrace (fst kv)" using assms(2) set by simp
  show ?thesis
  proof (cases "find (matching s) es")
    case None
    then have "\<not> (\<exists>x. x \<in> set es \<and> matching s x)" by (metis find_None_iff)
    with set have "\<not> (\<exists>x. x \<in> set es' \<and> matching s x)" by simp
    then have "find (matching s) es' = None" by (metis find_None_iff)
    with None show ?thesis by simp
  next
    case (Some kv)
    then have "kv \<in> set es \<and> matching s kv"
      using find_matching_iff [OF assms(1,2)] by blast
    then have "find (matching s) es' = Some kv"
      using find_matching_iff [OF d n] set by blast
    with Some show ?thesis by simp
  qed
qed

lemma render_cong:
  assumes "\<And>s. find (matching s) es' = find (matching s) es"
  shows "render_spec es' c = render_spec es c"
proof (induction c rule: length_induct)
  case (1 c)
  show ?case
  proof (cases c)
    case Nil
    then show ?thesis by simp
  next
    case (Cons x cs)
    show ?thesis
    proof (cases "find (matching (x # cs)) es")
      case None
      with 1 Cons assms show ?thesis by simp
    next
      case (Some kv)
      have "length (drop (length (placeholder (fst kv))) (x # cs)) < length c"
        using Cons by (simp add: placeholder_length)
      with 1 have "render_spec es' (drop (length (placeholder (fst kv))) (x # cs))
                  = render_spec es (drop (length (placeholder (fst kv))) (x # cs))" by blast
      with Some Cons assms show ?thesis by simp
    qed
  qed
qed

lemma entries_keys:
  "distinct (map fst (entries vars))" "\<forall>kv \<in> set (entries vars). list_all nonbrace (fst kv)"
  by (simp_all add: entries_def nonbrace_def)


subsection \<open>The claims about \<open>processTemplate\<close>\<close>

text \<open>The three examples of the specification, on the loop itself.\<close>

lemma spec_examples:
  "processEntries ''{{A}} {{A}}'' [(''A'', JString ''x'')] = ''x x''
   \<and> processEntries ''{{A}} {{Z}}'' [(''A'', JString ''x'')] = ''x {{Z}}''
   \<and> processEntries ''no placeholder'' [(''A'', JString ''x'')] = ''no placeholder''"
  by code_simp

text \<open>
  Claim C2, as the code has it. Let every value of the variable set be a non-empty
  string without a brace and without a dollar sign, and let the content have no doubled
  opening brace that is followed, after the text up to the next brace character, by
  another doubled opening brace. Then \<open>processTemplate\<close> returns the content with every
  occurrence of each variable's placeholder replaced by the variable's value and every
  other character unchanged, placeholders of other names included.
\<close>

theorem render_replaces_placeholders:
  assumes "\<forall>kv \<in> set (entries vars). plain (snd kv)" and "no_nested content"
  shows "processTemplate content vars = render_spec (entries vars) content"
  unfolding processTemplate_def
  using assms entries_keys(2) by (intro process_is_render) auto

theorem render_replaces_placeholders_witness:
  "list_all (\<lambda>kv. plain (snd kv)) (entries sample_vars)
   \<and> no_nested ''Hello {{PROJECT_NAME}}, using {{PROVIDER}} with {{MODEL}} and {{UNKNOWN_VAR}}''
   \<and> processTemplate
        ''Hello {{PROJECT_NAME}}, using {{PROVIDER}} with {{MODEL}} and {{UNKNOWN_VAR}}'' sample_vars
      = render_spec (entries sample_vars)
          ''Hello {{PROJECT_NAME}}, using {{PROVIDER}} with {{MODEL}} and {{UNKNOWN_VAR}}''
   \<and> processTemplate
        ''Hello {{PROJECT_NAME}}, using {{PROVIDER}} with {{MODEL}} and {{UNKNOWN_VAR}}'' sample_vars
      = ''Hello test-project, using openai with gpt-4 and {{UNKNOWN_VAR}}''"
proof -
  let ?c = "''Hello {{PROJECT_NAME}}, using {{PROVIDER}} with {{MODEL}} and {{UNKNOWN_VAR}}''"
  have a: "\<forall>kv \<in> set (entries sample_vars). plain (snd kv)" by code_simp
  have a': "list_all (\<lambda>kv. plain (snd kv)) (entries sample_vars)" by code_simp
  have b: "no_nested ?c" by code_simp
  have c: "processTemplate ?c sample_vars
           = ''Hello test-project, using openai with gpt-4 and {{UNKNOWN_VAR}}''"
    by code_simp
  from render_replaces_placeholders [OF a b] a' b c show ?thesis by blast
qed

text \<open>
  Claim C2 as stated fails in two ways. The passes run one after the other, each over
  the result of the one before, so a value that holds the placeholder of a later
  variable is replaced in turn: the project name \<open>{{MODEL}}\<close> is rendered as the model.
  And the value is handed to \<open>replace\<close> as a replacement pattern, so \<open>$$\<close> in a value
  comes out as a single dollar sign.
\<close>

theorem render_not_exact:
  "processTemplate ''{{PROJECT_NAME}}'' (sample_vars\<lparr>PROJECT_NAME := ''{{MODEL}}''\<rparr>) = ''gpt-4''
   \<and> render_spec (entries (sample_vars\<lparr>PROJECT_NAME := ''{{MODEL}}''\<rparr>)) ''{{PROJECT_NAME}}''
       = ''{{MODEL}}''
   \<and> processTemplate ''{{PROJECT_NAME}}'' (sample_vars\<lparr>PROJECT_NAME := ''a$$b''\<rparr>) = ''a$b''
   \<and> render_spec (entries (sample_vars\<lparr>PROJECT_NAME := ''a$$b''\<rparr>)) ''{{PROJECT_NAME}}''
       = ''a$$b''"
  by code_simp

text \<open>
  Claim C6, as the code has it. Under the conditions of C2 on the values and on the
  content, the passes can be applied in any order of the variables: every permutation of
  the entries gives the result of \<open>processTemplate\<close>.
\<close>

theorem render_order_independent:
  assumes "\<forall>kv \<in> set (entries vars). plain (snd kv)" and "no_nested content"
    and "mset es = mset (entries vars)"
  shows "processEntries content es = processTemplate content vars"
proof -
  have set: "set es = set (entries vars)" using assms(3) by (rule mset_eq_setD)
  have 1: "processEntries content es = render_spec es content"
    using assms(1,2) entries_keys(2) [of vars] set by (intro process_is_render) auto
  have 2: "processTemplate content vars = render_spec (entries vars) content"
    unfolding processTemplate_def
    using assms entries_keys(2) by (intro process_is_render) auto
  have "render_spec es content = render_spec (entries vars) content"
    by (intro render_cong find_matching_perm entries_keys assms(3))
  with 1 2 show ?thesis by simp
qed

theorem render_order_independent_witness:
  "mset (rev (entries sample_vars)) = mset (entries sample_vars)
   \<and> processEntries
        ''Hello {{PROJECT_NAME}}, using {{PROVIDER}} with {{MODEL}} and {{UNKNOWN_VAR}}''
        (rev (entries sample_vars))
      = processTemplate
          ''Hello {{PROJECT_NAME}}, using {{PROVIDER}} with {{MODEL}} and {{UNKNOWN_VAR}}''
          sample_vars
   \<and> processEntries
        ''Hello {{PROJECT_NAME}}, using {{PROVIDER}} with {{MODEL}} and {{UNKNOWN_VAR}}''
        (rev (entries sample_vars))
      = ''Hello test-project, using openai with gpt-4 and {{UNKNOWN_VAR}}''"
proof -
  let ?c = "''Hello {{PROJECT_NAME}}, using {{PROVIDER}} with {{MODEL}} and {{UNKNOWN_VAR}}''"
  have a: "\<forall>kv \<in> set (entries sample_vars). plain (snd kv)" by code_simp
  have b: "no_nested ?c" by code_simp
  have m: "mset (rev (entries sample_vars)) = mset (entries sample_vars)" by simp
  have c: "processTemplate ?c sample_vars
           = ''Hello test-project, using openai with gpt-4 and {{UNKNOWN_VAR}}''"
    by code_simp
  from render_order_independent [OF a b m] m c show ?thesis by simp
qed

text \<open>
  Claim C6 as stated fails: the entries in reverse order are a permutation of the
  entries, and they give another result as soon as a value holds the placeholder of
  another variable, or completes one that the content has left open.
\<close>

theorem render_order_matters:
  "mset (rev (entries (sample_vars\<lparr>PROJECT_NAME := ''{{MODEL}}''\<rparr>)))
     = mset (entries (sample_vars\<lparr>PROJECT_NAME := ''{{MODEL}}''\<rparr>))
   \<and> processTemplate ''{{PROJECT_NAME}}'' (sample_vars\<lparr>PROJECT_NAME := ''{{MODEL}}''\<rparr>) = ''gpt-4''
   \<and> processEntries ''{{PROJECT_NAME}}'' (rev (entries (sample_vars\<lparr>PROJECT_NAME := ''{{MODEL}}''\<rparr>)))
       = ''{{MODEL}}''
   \<and> processTemplate ''{{MO{{PROVIDER}}}}'' (sample_vars\<lparr>PROVIDER := ''DEL''\<rparr>) = ''gpt-4''
   \<and> processEntries ''{{MO{{PROVIDER}}}}'' (rev (entries (sample_vars\<lparr>PROVIDER := ''DEL''\<rparr>)))
       = ''{{MODEL}}''"
proof -
  have m: "mset (rev (entries (sample_vars\<lparr>PROJECT_NAME := ''{{MODEL}}''\<rparr>)))
     = mset (entries (sample_vars\<lparr>PROJECT_NAME := ''{{MODEL}}''\<rparr>))" by simp
  have 1: "processTemplate ''{{PROJECT_NAME}}'' (sample_vars\<lparr>PROJECT_NAME := ''{{MODEL}}''\<rparr>) = ''gpt-4''"
    by code_simp
  have 2: "processEntries ''{{PROJECT_NAME}}'' (rev (entries (sample_vars\<lparr>PROJECT_NAME := ''{{MODEL}}''\<rparr>)))
       = ''{{MODEL}}''"
    by code_simp
  have 3: "processTemplate ''{{MO{{PROVIDER}}}}'' (sample_vars\<lparr>PROVIDER := ''DEL''\<rparr>) = ''gpt-4''"
    by code_simp
  have 4: "processEntries ''{{MO{{PROVIDER}}}}'' (rev (entries (sample_vars\<lparr>PROVIDER := ''DEL''\<rparr>)))
       = ''{{MODEL}}''"
    by code_simp
  from m 1 2 3 4 show ?thesis by blast
qed

section \<open>Properties of the project materializer\<close>

subsection \<open>Single steps\<close>

lemma then_run_None_iff:
  "then_run r f = (None, t') \<longleftrightarrow> (\<exists>t1. r = (None, t1) \<and> f t1 = (None, t'))"
  by (cases r; cases "fst r") (auto simp: then_run_def)

lemma then_run_ok: "r = (None, t1) \<Longrightarrow> then_run r f = f t1"
  by (simp add: then_run_def)

lemma then_run_fail: "r = (Some err, t1) \<Longrightarrow> then_run r f = (Some err, t1)"
  by (simp add: then_run_def)

lemma mkdir_files: "mkdir e dir t = (r, t') \<Longrightarrow> files t' = files t"
  by (auto simp: mkdir_def split: if_splits)

lemma mkdir_no_fault:
  "\<not> fs_fault e (Mkdir dir) \<Longrightarrow> \<exists>t'. mkdir e dir t = (None, t') \<and> files t' = files t"
  by (simp add: mkdir_def)

lemma writeFileToDest_ok:
  assumes "writeFileToDest e dest content t = (None, t')"
  shows "files t' = (files t)(dest \<mapsto> content)"
  using assms
  by (auto simp: writeFileToDest_def then_run_None_iff writeFile_def mkdir_def split: if_splits)

lemma writeFileToDest_fail:
  assumes "writeFileToDest e dest content t = (Some err, t')"
  shows "files t' = files t"
  using assms
  by (auto simp: writeFileToDest_def then_run_def writeFile_def mkdir_def split: if_splits)

lemma self_in_ancestors: "dir \<in> set (self_and_ancestors dir)"
  by (simp add: self_and_ancestors_def)

lemma writeFileToDest_no_fault:
  assumes "\<forall>op. \<not> fs_fault e op"
  shows "\<exists>t'. writeFileToDest e dest content t = (None, t')"
  using assms
  by (simp add: writeFileToDest_def then_run_def writeFile_def mkdir_def self_in_ancestors)

lemma copyTemplateFile_ok:
  assumes "copyTemplateFile e tp dest vars t = (None, t')"
  shows "\<exists>content. getTemplateDir e tp = Some content
           \<and> files t' = (files t)(dest \<mapsto> processTemplate content vars)"
  using assms
  by (auto simp: copyTemplateFile_def readTemplateFile_def
      dest: writeFileToDest_ok split: option.splits if_splits)

lemma copyTemplateFile_fail:
  assumes "copyTemplateFile e tp dest vars t = (Some err, t')"
  shows "files t' = files t"
  using assms
  by (auto simp: copyTemplateFile_def readTemplateFile_def
      dest: writeFileToDest_fail split: option.splits if_splits)

lemma copyTemplateFile_missing:
  "getTemplateDir e tp = None \<Longrightarrow> copyTemplateFile e tp dest vars t = (Some (TemplateNotFound tp), t)"
  by (simp add: copyTemplateFile_def readTemplateFile_def)

lemma copyTemplateFile_no_fault:
  assumes "\<forall>op. \<not> fs_fault e op" and "getTemplateDir e tp = Some content"
  shows "\<exists>t'. copyTemplateFile e tp dest vars t = (None, t')"
  using assms writeFileToDest_no_fault [OF assms(1)]
  by (simp add: copyTemplateFile_def readTemplateFile_def)

lemma copyAll_append:
  "copyAll e vars (xs @ ys) t = then_run (copyAll e vars xs t) (copyAll e vars ys)"
proof (induction xs arbitrary: t)
  case Nil
  show ?case by (simp add: then_run_def)
next
  case (Cons x xs)
  obtain tp d where x: "x = (tp, d)" by (cases x)
  show ?case
    by (cases "copyTemplateFile e tp d vars t"; cases "fst (copyTemplateFile e tp d vars t)")
      (auto simp: x then_run_def Cons.IH)
qed

text \<open>Whatever the outcome, only destinations of the list are written.\<close>

lemma copyAll_frame:
  "copyAll e vars fs t = (r, t') \<Longrightarrow> p \<notin> snd ` set fs \<Longrightarrow> files t' p = files t p"
proof (induction fs arbitrary: t)
  case Nil
  then show ?case by simp
next
  case (Cons x fs)
  obtain tp d where x: "x = (tp, d)" by (cases x)
  show ?case
  proof (cases "copyTemplateFile e tp d vars t")
    case (Pair r1 t1)
    show ?thesis
    proof (cases r1)
      case None
      with Pair Cons.prems x have "copyAll e vars fs t1 = (r, t')" by (simp add: then_run_def)
      with Cons.IH Cons.prems(2) have "files t' p = files t1 p" by simp
      moreover from Pair None copyTemplateFile_ok obtain content
        where "files t1 = (files t)(d \<mapsto> processTemplate content vars)" by blast
      ultimately show ?thesis using Cons.prems(2) x by simp
    next
      case (Some err)
      with Pair Cons.prems x have "t' = t1" by (simp add: then_run_def)
      with Pair Some copyTemplateFile_fail show ?thesis by metis
    qed
  qed
qed

lemma copyAll_ok:
  assumes "copyAll e vars fs t = (None, t')" and "distinct (map snd fs)" and "(tp, d) \<in> set fs"
  shows "\<exists>content. getTemplateDir e tp = Some content
           \<and> files t' d = Some (processTemplate content vars)"
  using assms
proof (induction fs arbitrary: t)
  case Nil
  then show ?case by simp
next
  case (Cons x fs)
  obtain tp1 d1 where x: "x = (tp1, d1)" by (cases x)
  from Cons.prems(1) x obtain t1 where
    1: "copyTemplateFile e tp1 d1 vars t = (None, t1)" and 2: "copyAll e vars fs t1 = (None, t')"
    by (auto simp: then_run_None_iff)
  show ?case
  proof (cases "(tp, d) \<in> set fs")
    case True
    with Cons.IH [OF 2] Cons.prems(2) show ?thesis by simp
  next
    case False
    with Cons.prems(3) x have eq: "tp = tp1" "d = d1" by auto
    from Cons.prems(2) x have "d1 \<notin> snd ` set fs" by simp
    with copyAll_frame [OF 2] have "files t' d1 = files t1 d1" by blast
    with copyTemplateFile_ok [OF 1] eq show ?thesis by auto
  qed
qed

lemma copyAll_no_fault:
  assumes "\<forall>op. \<not> fs_fault e op" and "\<forall>x \<in> set fs. getTemplateDir e (fst x) \<noteq> None"
  shows "\<exists>t'. copyAll e vars fs t = (None, t')"
  using assms(2)
proof (induction fs arbitrary: t)
  case Nil
  show ?case by simp
next
  case (Cons x fs)
  obtain tp d where x: "x = (tp, d)" by (cases x)
  with Cons.prems obtain content where "getTemplateDir e tp = Some content" by auto
  from copyTemplateFile_no_fault [OF assms(1) this] obtain t1
    where "copyTemplateFile e tp d vars t = (None, t1)" by blast
  moreover from Cons obtain t' where "copyAll e vars fs t1 = (None, t')" by auto
  ultimately show ?case by (auto simp: x then_run_def)
qed

lemma copyAll_missing:
  assumes "\<forall>op. \<not> fs_fault e op" and "\<forall>x \<in> set pre. getTemplateDir e (fst x) \<noteq> None"
    and "getTemplateDir e tp = None"
  shows "\<exists>t1. copyAll e vars pre t = (None, t1)
            \<and> copyAll e vars (pre @ (tp, d) # post) t = (Some (TemplateNotFound tp), t1)"
proof -
  from copyAll_no_fault [OF assms(1,2)] obtain t1 where 1: "copyAll e vars pre t = (None, t1)"
    by blast
  have "copyAll e vars ((tp, d) # post) t1 = (Some (TemplateNotFound tp), t1)"
    by (simp add: copyTemplateFile_missing [OF assms(3)] then_run_def)
  with 1 show ?thesis by (auto simp: copyAll_append then_run_def)
qed

lemma all_files_distinct: "distinct (map snd (core_files @ example_files))"
  by code_simp

lemma env_not_listed: "''.env'' \<notin> set (map snd (core_files @ example_files))"
  by code_simp

lemma manifest_distinct: "distinct (map snd (manifest options))"
  using all_files_distinct by (cases "includeExamples options") (simp_all add: manifest_def)

lemma manifest_no_env: "''.env'' \<notin> snd ` set (manifest options)"
  using env_not_listed by (cases "includeExamples options") (auto simp: manifest_def)

subsection \<open>The whole run\<close>

lemma vars_flag:
  "getTemplateVariables (options\<lparr>includeExamples := b\<rparr>) = getTemplateVariables options"
  by (simp add: getTemplateVariables_def)

lemma generateProject_ok:
  assumes "generateProject e t options = (None, t')"
  shows "\<exists>t1 t2. files t1 = files t
          \<and> copyAll e (getTemplateVariables options) (manifest options) t1 = (None, t2)
          \<and> (if supplied (apiKey options)
              then files t' = (files t2)(''.env'' \<mapsto>
                     env_content (getTemplateVariables options) (the (apiKey options)))
              else t' = t2)"
proof -
  from assms obtain ta tb tc td te tf where
    a: "mkdir e [] t = (None, ta)" and b: "mkdir e ''src'' ta = (None, tb)"
    and c: "mkdir e ''src/tools'' tb = (None, tc)" and d: "mkdir e ''src/agents'' tc = (None, td)"
    and e: "(if includeExamples options then mkdir e ''src/examples'' td else (None, td)) = (None, te)"
    and f: "copyAll e (getTemplateVariables options) (manifest options) te = (None, tf)"
    and g: "(if supplied (apiKey options)
             then writeFileToDest e ''.env''
                    (env_content (getTemplateVariables options) (the (apiKey options))) tf
             else (None, tf)) = (None, t')"
    unfolding generateProject_def Let_def then_run_None_iff by blast
  have "files te = files td" using e mkdir_files by (auto split: if_splits)
  with a b c d have "files te = files t" using mkdir_files by metis
  moreover have "if supplied (apiKey options)
              then files t' = (files tf)(''.env'' \<mapsto>
                     env_content (getTemplateVariables options) (the (apiKey options)))
              else t' = tf"
    using g writeFileToDest_ok by (auto split: if_splits)
  ultimately show ?thesis using f by blast
qed

lemma generateProject_listed:
  assumes "generateProject e t options = (None, t')" and "(tp, d) \<in> set (manifest options)"
  shows "\<exists>content. getTemplateDir e tp = Some content
           \<and> files t' d = Some (processTemplate content (getTemplateVariables options))"
proof -
  from generateProject_ok [OF assms(1)] obtain t1 t2 where
    1: "copyAll e (getTemplateVariables options) (manifest options) t1 = (None, t2)"
    and 2: "if supplied (apiKey options)
              then files t' = (files t2)(''.env'' \<mapsto>
                     env_content (getTemplateVariables options) (the (apiKey options)))
              else t' = t2"
    by blast
  from assms(2) manifest_no_env have "d \<noteq> ''.env''" by force
  with 2 have "files t' d = files t2 d" by (auto split: if_splits)
  with copyAll_ok [OF 1 manifest_distinct assms(2)] show ?thesis by simp
qed

lemma generateProject_env:
  assumes "generateProject e t options = (None, t')"
  shows "files t' ''.env'' =
          (if supplied (apiKey options)
           then Some (env_content (getTemplateVariables options) (the (apiKey options)))
           else files t ''.env'')"
proof -
  from generateProject_ok [OF assms(1)] obtain t1 t2 where
    0: "files t1 = files t"
    and 1: "copyAll e (getTemplateVariables options) (manifest options) t1 = (None, t2)"
    and 2: "if supplied (apiKey options)
              then files t' = (files t2)(''.env'' \<mapsto>
                     env_content (getTemplateVariables options) (the (apiKey options)))
              else t' = t2"
    by blast
  from copyAll_frame [OF 1 manifest_no_env] 0 have "files t2 ''.env'' = files t ''.env''" by simp
  with 2 show ?thesis by (auto split: if_splits)
qed

lemma generateProject_other:
  assumes "generateProject e t options = (None, t')"
    and "p \<notin> snd ` set (manifest options)" and "p \<noteq> ''.env''"
  shows "files t' p = files t p"
proof -
  from generateProject_ok [OF assms(1)] obtain t1 t2 where
    0: "files t1 = files t"
    and 1: "copyAll e (getTemplateVariables options) (manifest options) t1 = (None, t2)"
    and 2: "if supplied (apiKey options)
              then files t' = (files t2)(''.env'' \<mapsto>
                     env_content (getTemplateVariables options) (the (apiKey options)))
              else t' = t2"
    by blast
  from copyAll_frame [OF 1 assms(2)] 0 have "files t2 p = files t p" by simp
  with 2 assms(3) show ?thesis by (auto split: if_splits)
qed

lemma manifest_flag:
  "manifest (options\<lparr>includeExamples := True\<rparr>) = core_files @ example_files"
  "manifest (options\<lparr>includeExamples := False\<rparr>) = core_files"
  by (simp_all add: manifest_def)

lemma example_dests:
  "snd ` set example_files
    = {''src/tools/example-tool.ts'', ''src/agents/default-agent.ts'', ''src/examples/basic.ts''}"
  by (simp add: example_files_def)

lemma counts: "length (core_files @ example_files) = 13" "length core_files = 10"
  by (simp_all add: core_files_def example_files_def)

text \<open>
  Claim C7. Take two runs that succeed, on the same surroundings, destination and
  options but for \<open>includeExamples\<close>. With the flag set, the 13 destinations of the
  manifest (10 core files and 3 example files, all distinct) each hold their rendered
  template, and no other path but \<open>.env\<close> is written. Without the flag the 10 core
  destinations each hold their rendered template, and no other path but \<open>.env\<close> is
  written: the three example files are left as they were (absent in a new destination).
  The file \<open>.env\<close> is outside the manifest; without a credential neither run writes it.
  On every path other than the three example files the two runs leave the same content.
\<close>

theorem examples_flag_frame:
  assumes T: "generateProject e t (options\<lparr>includeExamples := True\<rparr>) = (None, tT)"
    and F: "generateProject e t (options\<lparr>includeExamples := False\<rparr>) = (None, tF)"
  shows "length (core_files @ example_files) = 13 \<and> length core_files = 10
       \<and> distinct (map snd (core_files @ example_files))
       \<and> snd ` set example_files
           = {''src/tools/example-tool.ts'', ''src/agents/default-agent.ts'', ''src/examples/basic.ts''}
       \<and> (\<forall>x \<in> set (core_files @ example_files). \<exists>content.
             getTemplateDir e (fst x) = Some content
             \<and> files tT (snd x) = Some (processTemplate content (getTemplateVariables options)))
       \<and> (\<forall>p. p \<notin> snd ` set (core_files @ example_files) \<and> p \<noteq> ''.env''
             \<longrightarrow> files tT p = files t p)
       \<and> (\<forall>x \<in> set core_files. \<exists>content.
             getTemplateDir e (fst x) = Some content
             \<and> files tF (snd x) = Some (processTemplate content (getTemplateVariables options)))
       \<and> (\<forall>p. p \<notin> snd ` set core_files \<and> p \<noteq> ''.env'' \<longrightarrow> files tF p = files t p)
       \<and> (\<not> supplied (apiKey options)
             \<longrightarrow> files tT ''.env'' = files t ''.env'' \<and> files tF ''.env'' = files t ''.env'')
       \<and> (\<forall>p. p \<notin> snd ` set example_files \<longrightarrow> files tF p = files tT p)"
proof -
  have 1: "\<forall>x \<in> set (core_files @ example_files). \<exists>content.
             getTemplateDir e (fst x) = Some content
             \<and> files tT (snd x) = Some (processTemplate content (getTemplateVariables options))"
    using generateProject_listed [OF T] by (simp only: manifest_flag vars_flag) force
  have 2: "\<forall>p. p \<notin> snd ` set (core_files @ example_files) \<and> p \<noteq> ''.env''
             \<longrightarrow> files tT p = files t p"
    using generateProject_other [OF T] by (simp only: manifest_flag) blast
  have 3: "\<forall>x \<in> set core_files. \<exists>content.
             getTemplateDir e (fst x) = Some content
             \<and> files tF (snd x) = Some (processTemplate content (getTemplateVariables options))"
    using generateProject_listed [OF F] by (simp only: manifest_flag vars_flag) force
  have 4: "\<forall>p. p \<notin> snd ` set core_files \<and> p \<noteq> ''.env'' \<longrightarrow> files tF p = files t p"
    using generateProject_other [OF F] by (simp only: manifest_flag) blast
  have env: "files tF ''.env'' = files tT ''.env''"
    using generateProject_env [OF T] generateProject_env [OF F] by (simp add: vars_flag)
  have 5: "files tF p = files tT p" if p: "p \<notin> snd ` set example_files" for p
  proof (cases "p = ''.env''")
    case True
    with env show ?thesis by simp
  next
    case False
    show ?thesis
    proof (cases "p \<in> snd ` set core_files")
      case True
      then obtain x where x: "x \<in> set core_files" "snd x = p" by auto
      with 3 obtain c where c: "getTemplateDir e (fst x) = Some c"
        "files tF p = Some (processTemplate c (getTemplateVariables options))" by blast
      from x 1 obtain c' where c': "getTemplateDir e (fst x) = Some c'"
        "files tT p = Some (processTemplate c' (getTemplateVariables options))" by auto
      from c c' show ?thesis by simp
    next
      case no: False
      with p have "p \<notin> snd ` set (core_files @ example_files)" by auto
      with 2 4 no False show ?thesis by simp
    qed
  qed
  have 6: "\<not> supplied (apiKey options)
             \<longrightarrow> files tT ''.env'' = files t ''.env'' \<and> files tF ''.env'' = files t ''.env''"
    using generateProject_env [OF T] generateProject_env [OF F] by simp
  from 1 2 3 4 5 6 counts all_files_distinct example_dests show ?thesis by blast
qed

theorem examples_flag_frame_witness:
  "generateProject sample_env empty_tree (sample_options\<lparr>includeExamples := True\<rparr>)
     = (None, snd (generateProject sample_env empty_tree (sample_options\<lparr>includeExamples := True\<rparr>)))
   \<and> generateProject sample_env empty_tree (sample_options\<lparr>includeExamples := False\<rparr>)
     = (None, snd (generateProject sample_env empty_tree (sample_options\<lparr>includeExamples := False\<rparr>)))
   \<and> files (snd (generateProject sample_env empty_tree (sample_options\<lparr>includeExamples := True\<rparr>)))
        ''src/examples/basic.ts'' = Some ''p1: src/examples/basic.ts''
   \<and> files (snd (generateProject sample_env empty_tree (sample_options\<lparr>includeExamples := False\<rparr>)))
        ''src/examples/basic.ts'' = None
   \<and> files (snd (generateProject sample_env empty_tree (sample_options\<lparr>includeExamples := False\<rparr>)))
        ''package.json''
      = files (snd (generateProject sample_env empty_tree (sample_options\<lparr>includeExamples := True\<rparr>)))
        ''package.json''"
proof -
  let ?T = "generateProject sample_env empty_tree (sample_options\<lparr>includeExamples := True\<rparr>)"
  let ?F = "generateProject sample_env empty_tree (sample_options\<lparr>includeExamples := False\<rparr>)"
  have "fst ?T = None" by code_simp
  then have T: "?T = (None, snd ?T)" by (metis prod.collapse)
  have "fst ?F = None" by code_simp
  then have F: "?F = (None, snd ?F)" by (metis prod.collapse)
  have a: "''src/examples/basic.ts'' \<notin> snd ` set core_files \<and> ''src/examples/basic.ts'' \<noteq> ''.env''"
    by (simp add: core_files_def)
  have b: "''package.json'' \<notin> snd ` set example_files" by (simp add: example_files_def)
  have c: "files empty_tree ''src/examples/basic.ts'' = None" by (simp add: empty_tree_def)
  have d: "files (snd ?T) ''src/examples/basic.ts'' = Some ''p1: src/examples/basic.ts''"
    by code_simp
  from examples_flag_frame [OF T F] a b c
  have "files (snd ?F) ''src/examples/basic.ts'' = None"
    and "files (snd ?F) ''package.json'' = files (snd ?T) ''package.json''"
    by auto
  with T F d show ?thesis by blast
qed

text \<open>
  Claim C8. After a run that succeeds, when a credential is supplied (\<open>apiKey\<close> present
  and not empty, the condition of the code) the file \<open>.env\<close> holds exactly the
  environment-variable name of the provider, an equals sign, the credential and one
  newline; when none is supplied, \<open>.env\<close> is left as it was (absent in a new
  destination).
\<close>

theorem env_file_written:
  assumes "generateProject e t options = (None, t')"
  shows "(supplied (apiKey options) \<longrightarrow>
            files t' ''.env'' =
              Some (js_to_string (getProviderEnvVar (provider options)) @ ''=''
                    @ the (apiKey options) @ [CHR 0x0A]))
       \<and> (\<not> supplied (apiKey options) \<longrightarrow> files t' ''.env'' = files t ''.env'')"
  using generateProject_env [OF assms]
  by (simp add: env_content_def getTemplateVariables_def)

theorem env_file_written_witness:
  "generateProject sample_env empty_tree sample_options
     = (None, snd (generateProject sample_env empty_tree sample_options))
   \<and> supplied (apiKey sample_options)
   \<and> files (snd (generateProject sample_env empty_tree sample_options)) ''.env''
      = Some (''GROQ_API_KEY=abc123'' @ [CHR 0x0A])
   \<and> generateProject sample_env empty_tree (sample_options\<lparr>apiKey := None\<rparr>)
     = (None, snd (generateProject sample_env empty_tree (sample_options\<lparr>apiKey := None\<rparr>)))
   \<and> files (snd (generateProject sample_env empty_tree (sample_options\<lparr>apiKey := None\<rparr>))) ''.env''
      = None"
proof -
  let ?G = "generateProject sample_env empty_tree sample_options"
  let ?N = "generateProject sample_env empty_tree (sample_options\<lparr>apiKey := None\<rparr>)"
  have "fst ?G = None" by code_simp
  then have G: "?G = (None, snd ?G)" by (metis prod.collapse)
  have "fst ?N = None" by code_simp
  then have N: "?N = (None, snd ?N)" by (metis prod.collapse)
  have s: "supplied (apiKey sample_options)" by code_simp
  have n: "\<not> supplied (apiKey (sample_options\<lparr>apiKey := None\<rparr>))" by simp
  have v: "js_to_string (getProviderEnvVar (provider sample_options)) @ ''=''
             @ the (apiKey sample_options) @ [CHR 0x0A]
           = ''GROQ_API_KEY=abc123'' @ [CHR 0x0A]"
    by code_simp
  have e: "files empty_tree ''.env'' = None" by (simp add: empty_tree_def)
  from env_file_written [OF G] s v
  have 1: "files (snd ?G) ''.env'' = Some (''GROQ_API_KEY=abc123'' @ [CHR 0x0A])" by simp
  from env_file_written [OF N] n e
  have 2: "files (snd ?N) ''.env'' = None" by simp
  from G N s 1 2 show ?thesis by blast
qed

text \<open>Whatever the file system does, a run cannot succeed when a template is missing.\<close>

lemma missing_template_never_succeeds:
  assumes "(tp, d) \<in> set (manifest options)" and "getTemplateDir e tp = None"
  shows "fst (generateProject e t options) \<noteq> None"
proof
  assume "fst (generateProject e t options) = None"
  then have "generateProject e t options = (None, snd (generateProject e t options))"
    by (metis prod.collapse)
  from generateProject_listed [OF this assms(1)] assms(2) show False by simp
qed

lemma generateProject_copy_fails:
  assumes "\<forall>op. \<not> fs_fault e op"
  shows "\<exists>t5. files t5 = files t
          \<and> (\<forall>err t1. copyAll e (getTemplateVariables options) (manifest options) t5 = (Some err, t1)
                \<longrightarrow> generateProject e t options = (Some err, t1))"
proof -
  from assms mkdir_no_fault obtain ta where a: "mkdir e [] t = (None, ta)" "files ta = files t"
    by blast
  from assms mkdir_no_fault obtain tb where b: "mkdir e ''src'' ta = (None, tb)" "files tb = files ta"
    by blast
  from assms mkdir_no_fault obtain tc where
    c: "mkdir e ''src/tools'' tb = (None, tc)" "files tc = files tb"
    by blast
  from assms mkdir_no_fault obtain td where
    d: "mkdir e ''src/agents'' tc = (None, td)" "files td = files tc"
    by blast
  obtain te where
    x: "(if includeExamples options then mkdir e ''src/examples'' td else (None, td)) = (None, te)"
      "files te = files td"
  proof (cases "includeExamples options")
    case True
    from assms mkdir_no_fault obtain te where
      "mkdir e ''src/examples'' td = (None, te)" "files te = files td" by blast
    with True that show ?thesis by simp
  next
    case False
    with that show ?thesis by simp
  qed
  have "generateProject e t options = (Some err, t1)"
    if "copyAll e (getTemplateVariables options) (manifest options) te = (Some err, t1)"
    for err t1
    unfolding generateProject_def Let_def
    by (simp add: a(1) b(1) c(1) d(1) x(1) that then_run_def)
  moreover have "files te = files t" using a b c d x by simp
  ultimately show ?thesis by blast
qed

text \<open>
  Claim C9. When the template of a manifest entry does not exist under the resolved
  template root, the templates of the entries before it do, and the file system refuses
  no operation, the run ends with the lookup error for that template. The destinations
  of the earlier entries hold their rendered templates, and every other path is as it
  was before the run: nothing is rolled back, and nothing after the missing entry
  (the \<open>.env\<close> file included) is written.
\<close>

theorem missing_template_aborts:
  assumes m: "manifest options = pre @ (tp, d) # post"
    and pre: "\<forall>x \<in> set pre. getTemplateDir e (fst x) \<noteq> None"
    and missing: "getTemplateDir e tp = None"
    and nofault: "\<forall>op. \<not> fs_fault e op"
  shows "\<exists>t'. generateProject e t options = (Some (TemplateNotFound tp), t')
          \<and> (\<forall>x \<in> set pre. \<exists>content. getTemplateDir e (fst x) = Some content
                \<and> files t' (snd x) = Some (processTemplate content (getTemplateVariables options)))
          \<and> (\<forall>p. p \<notin> snd ` set pre \<longrightarrow> files t' p = files t p)"
proof -
  let ?vars = "getTemplateVariables options"
  from generateProject_copy_fails [OF nofault] obtain t5 where t5: "files t5 = files t"
    and g: "\<And>err t1. copyAll e ?vars (manifest options) t5 = (Some err, t1)
              \<Longrightarrow> generateProject e t options = (Some err, t1)"
    by blast
  from copyAll_missing [OF nofault pre missing] obtain t1 where
    1: "copyAll e ?vars pre t5 = (None, t1)"
    and 2: "copyAll e ?vars (pre @ (tp, d) # post) t5 = (Some (TemplateNotFound tp), t1)"
    by blast
  from g 2 m have r: "generateProject e t options = (Some (TemplateNotFound tp), t1)" by simp
  have "distinct (map snd (manifest options))" by (rule manifest_distinct)
  with m have dist: "distinct (map snd pre)" by simp
  have written: "\<exists>content. getTemplateDir e (fst x) = Some content
                \<and> files t1 (snd x) = Some (processTemplate content ?vars)"
    if "x \<in> set pre" for x
    using copyAll_ok [OF 1 dist, of "fst x" "snd x"] that by simp
  have frame: "files t1 p = files t p" if "p \<notin> snd ` set pre" for p
    using copyAll_frame [OF 1 that] t5 by simp
  from r written frame show ?thesis by blast
qed

theorem missing_template_aborts_witness:
  "generateProject
     (sample_env\<lparr>prodTemplates := Some (sample_templates(''README.md.template'' := None))\<rparr>)
     empty_tree sample_options
     = (Some (TemplateNotFound ''README.md.template''),
        snd (generateProject
          (sample_env\<lparr>prodTemplates := Some (sample_templates(''README.md.template'' := None))\<rparr>)
          empty_tree sample_options))
   \<and> files (snd (generateProject
          (sample_env\<lparr>prodTemplates := Some (sample_templates(''README.md.template'' := None))\<rparr>)
          empty_tree sample_options)) ''package.json'' = Some ''p1: package.json''
   \<and> files (snd (generateProject
          (sample_env\<lparr>prodTemplates := Some (sample_templates(''README.md.template'' := None))\<rparr>)
          empty_tree sample_options)) ''README.md'' = None
   \<and> files (snd (generateProject
          (sample_env\<lparr>prodTemplates := Some (sample_templates(''README.md.template'' := None))\<rparr>)
          empty_tree sample_options)) ''src/index.ts'' = None
   \<and> files (snd (generateProject
          (sample_env\<lparr>prodTemplates := Some (sample_templates(''README.md.template'' := None))\<rparr>)
          empty_tree sample_options)) ''.env'' = None"
proof -
  let ?e = "sample_env\<lparr>prodTemplates := Some (sample_templates(''README.md.template'' := None))\<rparr>"
  let ?G = "generateProject ?e empty_tree sample_options"
  have m: "manifest sample_options
           = take 5 core_files @ (''README.md.template'', ''README.md'')
               # (drop 6 core_files @ example_files)"
    by code_simp
  have p: "\<forall>x \<in> set (take 5 core_files). getTemplateDir ?e (fst x) \<noteq> None" by code_simp
  have n: "getTemplateDir ?e ''README.md.template'' = None" by code_simp
  have f: "\<forall>op. \<not> fs_fault ?e op" by (simp add: sample_env_def)
  have o: "''README.md'' \<notin> snd ` set (take 5 core_files)
           \<and> ''src/index.ts'' \<notin> snd ` set (take 5 core_files)
           \<and> ''.env'' \<notin> snd ` set (take 5 core_files)"
    by (simp add: core_files_def)
  have z: "files empty_tree ''README.md'' = None \<and> files empty_tree ''src/index.ts'' = None
           \<and> files empty_tree ''.env'' = None"
    by (simp add: empty_tree_def)
  have c: "files (snd ?G) ''package.json'' = Some ''p1: package.json''" by code_simp
  from missing_template_aborts [OF m p n f, of empty_tree] obtain t' where
    g: "?G = (Some (TemplateNotFound ''README.md.template''), t')"
    and r: "\<forall>q. q \<notin> snd ` set (take 5 core_files) \<longrightarrow> files t' q = files empty_tree q"
    by blast
  from g have t': "t' = snd ?G" by simp
  from r o z t' have "files (snd ?G) ''README.md'' = None"
    and "files (snd ?G) ''src/index.ts'' = None" and "files (snd ?G) ''.env'' = None"
    by auto
  with g t' c show ?thesis by simp
qed

end
